theory Spec2Isabelle
  imports Main
begin

section \<open>AfterHeal: the missed-dose alert engine (scripts/notifications.js)\<close>

text \<open>
  The file scripts/notifications.js holds two variants of the engine: the v3
  "Life-Critical Emergency Alert System" (SMS gateway, audit trail, caregiver,
  primary contact) and the earlier variant that only simulates the SMS inside the
  notification feed. Both are embedded here. Functions of the earlier variant carry
  the suffix \<open>_legacy\<close>; everything else is the v3 code.

  Conventions of the embedding.
  \<^item> An instant (a JavaScript \<open>Date\<close>, or the ISO string that \<open>toISOString\<close> writes
    and \<open>new Date\<close> reads back) is its number of milliseconds since the epoch, an
    \<open>int\<close>. Every stored time is written by \<open>toISOString\<close>, so it always parses.
  \<^item> \<open>null\<close>, \<open>undefined\<close> and a missing field are \<open>None\<close>.
  \<^item> A string is a list of 8-bit characters (code units below 256); the two
    credentials of the gateway that reach \<open>btoa\<close> are lists of code units.
  \<^item> \<open>localStorage\<close>, together with the variables of the gateway, is the record
    \<open>store\<close>, passed in and returned. The clock reading \<open>new Date()\<close> of a call is
    the argument \<open>now\<close>.
  \<^item> An exception is a value: a function that can throw returns a sum, \<open>Inl\<close> the
    message of the exception.
  \<^item> \<open>uuid()\<close> draws a random identifier; the draw is modelled by a counter in the
    store, so successive identifiers differ.
  \<^item> The text of a notification or of an SMS is kept as the template's arguments
    (\<open>fmtTime\<close> renders in the browser's locale).
\<close>

subsection \<open>Configuration\<close>

type_synonym instant = int

definition MISSED_THRESHOLD_MINS :: int where
  "MISSED_THRESHOLD_MINS = 30"

definition thresholdMs :: int where
  "thresholdMs = MISSED_THRESHOLD_MINS * 60 * 1000"

datatype notif_type = MISSED_DOSE | SMS_SENT | CAREGIVER_ALERT | SYSTEM

datatype delivery_status = SIMULATED | SENT | FAILED | PENDING

subsection \<open>Records of the store\<close>

record user =
  u_id :: string
  u_name :: string
  u_email :: string
  u_phone :: "string option"

record medication =
  m_id :: string
  m_name :: string
  m_dosage :: string

record dose =
  d_id :: string
  d_medId :: string
  d_patientId :: string
  d_scheduledTime :: "instant option"
  d_takenAt :: "instant option"

record contact =
  c_id :: string
  c_patientId :: string
  c_name :: string
  c_relation :: string
  c_phone :: string
  c_isPrimary :: bool
  c_notifiedAt :: "instant option"
  c_createdAt :: "instant option"
  c_updatedAt :: "instant option"

text \<open>The message templates, by their arguments.\<close>

datatype message =
  MissedDoseMsg string string instant
  | SmsSentMsg string string string bool
  | CaregiverMsg string string
  | LegacyMissedMsg string string instant
  | LegacySmsMsg string string string string string instant
  | OtherMsg string

record notification =
  n_id :: string
  n_patientId :: string
  n_doseId :: "string option"
  n_type :: notif_type
  n_message :: message
  n_timestamp :: instant
  n_read :: bool
  n_contactId :: "string option"
  n_caregiverId :: "string option"

text \<open>\<open>SMS_TEMPLATE(patientName, medName, dosage, dueTime)\<close>\<close>

datatype sms_body = SMS_TEMPLATE string string string instant

record alert_log =
  l_id :: string
  l_patientId :: string
  l_doseId :: string
  l_medName :: string
  l_medDosage :: string
  l_scheduledTime :: "instant option"
  l_contactId :: string
  l_contactName :: string
  l_contactPhone :: string
  l_contactRole :: string
  l_type :: string
  l_smsMessage :: sms_body
  l_deliveryStatus :: delivery_status
  l_provider :: string
  l_triggeredAt :: instant
  l_acknowledgedAt :: "instant option"

text \<open>The \<open>meta\<close> argument of \<open>SMSGateway.send\<close>; an absent field is \<open>None\<close>.\<close>

record send_meta =
  meta_patientId :: "string option"
  meta_doseId :: "string option"
  meta_medName :: "string option"
  meta_medDosage :: "string option"
  meta_scheduledTime :: "instant option"
  meta_contactId :: "string option"
  meta_contactName :: "string option"
  meta_contactRole :: "string option"
  meta_type :: "string option"

text \<open>
  The gateway's \<open>_config\<close>, as far as the code before the first \<open>await\<close> depends on
  it: the two fields that reach \<open>btoa\<close>, as lists of UTF-16 code units (\<open>btoa\<close>
  throws on a code unit above 255). The other fields (\<open>fromNumber\<close>, \<open>proxyUrl\<close>,
  \<open>apiKey\<close>) only shape the request. \<open>None\<close> for the whole of it is \<open>null\<close>, which
  \<open>setMode(mode, null)\<close> stores (the default \<open>{}\<close> replaces \<open>undefined\<close> only).
\<close>

record gateway_config =
  cfg_accountSid :: "nat list option"
  cfg_authToken :: "nat list option"

text \<open>
  A call of \<open>send\<close> that is suspended at \<open>await fetch(...)\<close>: its arguments, the
  mode and the configuration it read when it was called, and what its caller
  chained with \<open>.then\<close>: for an emergency contact the update of \<open>notifiedAt\<close>
  (contact id and \<open>nowIso\<close>), for the caregiver only a console line.
\<close>

record in_flight_send =
  fl_to :: string
  fl_body :: sms_body
  fl_meta :: send_meta
  fl_mode :: string
  fl_config :: "gateway_config option"
  fl_then :: "(string \<times> instant) option"

text \<open>
  The key table \<open>AH.KEYS\<close> of auth.js has the entries \<open>USERS\<close>, \<open>MEDICATIONS\<close>,
  \<open>DOSES\<close>, \<open>EMERGENCY_CONTACTS\<close> and \<open>NOTIFICATIONS\<close>, and neither \<open>ALERT_LOGS\<close>
  nor \<open>CAREGIVER_ASSIGNMENT\<close>. So \<open>AH.KEYS.ALERT_LOGS\<close> and
  \<open>AH.KEYS.CAREGIVER_ASSIGNMENT\<close> are both \<open>undefined\<close>, and every \<open>getItem\<close>,
  \<open>getObj\<close> and \<open>setItem\<close> of the audit trail and of the caregiver assignment reads
  and writes the one \<open>localStorage\<close> entry with the key \<open>'undefined'\<close>. What is
  stored there is what the last \<open>setItem\<close> serialised: nothing yet, the array of
  audit entries, or the object that maps a patient id to a caregiver id.
\<close>

datatype json_slot =
  Missing
  | JsonArray "alert_log list"
  | JsonObject "(string \<times> string) list"

text \<open>
  The store. \<open>undefined_key\<close> is that shared entry. \<open>sms_mode\<close> and \<open>sms_config\<close>
  are the gateway's \<open>_mode\<close> and \<open>_config\<close>. \<open>microtasks\<close> are the \<open>.then\<close>
  callbacks of promises that are already resolved and run once the current
  synchronous code is over; \<open>in_flight\<close> are the suspended sends. \<open>gateway_calls\<close>
  is a trace and not part of \<open>localStorage\<close>: the recipient of every call of
  \<open>SMSGateway.send\<close>, in the order of the calls.
\<close>

record store =
  USERS :: "user list"
  MEDICATIONS :: "medication list"
  DOSES :: "dose list"
  EMERGENCY_CONTACTS :: "contact list"
  NOTIFICATIONS :: "notification list"
  undefined_key :: json_slot
  sms_mode :: string
  sms_config :: "gateway_config option"
  microtasks :: "(string \<times> instant) list"
  in_flight :: "in_flight_send list"
  gateway_calls :: "string list"
  entropy :: nat

subsection \<open>Helpers\<close>

text \<open>JavaScript truthiness of an optional string: neither absent nor empty.\<close>

fun truthy :: "string option \<Rightarrow> bool" where
  "truthy None = False"
| "truthy (Some s) = (s \<noteq> [])"

text \<open>\<open>a || b\<close> on strings.\<close>

fun or_else :: "string option \<Rightarrow> string \<Rightarrow> string" where
  "or_else None d = d"
| "or_else (Some s) d = (if s = [] then d else s)"

text \<open>\<open>Array.prototype.findIndex\<close>: the first index that satisfies the test.\<close>

fun findIndex :: "('a \<Rightarrow> bool) \<Rightarrow> 'a list \<Rightarrow> nat option" where
  "findIndex P [] = None"
| "findIndex P (x # xs) =
     (if P x then Some 0 else (case findIndex P xs of None \<Rightarrow> None | Some i \<Rightarrow> Some (Suc i)))"

text \<open>Decimal digits of a number, for the identifiers.\<close>

fun digits_of :: "nat \<Rightarrow> nat \<Rightarrow> string" where
  "digits_of 0 n = []"
| "digits_of (Suc fuel) n =
     (if n < 10 then [char_of (48 + n)]
      else digits_of fuel (n div 10) @ [char_of (48 + n mod 10)])"

definition uuid :: "store \<Rightarrow> string \<times> store" where
  "uuid st = (''id_'' @ digits_of (Suc (entropy st)) (entropy st),
              st\<lparr>entropy := Suc (entropy st)\<rparr>)"

definition uuid_legacy :: "store \<Rightarrow> string \<times> store" where
  "uuid_legacy st = (''notif_'' @ digits_of (Suc (entropy st)) (entropy st),
              st\<lparr>entropy := Suc (entropy st)\<rparr>)"

text \<open>
  \<open>getItem(AH.KEYS.ALERT_LOGS)\<close>, that is \<open>JSON.parse(...) || []\<close>, as the array the
  callers take it for: the empty array when nothing is stored, the stored array, and
  \<open>None\<close> when an object is stored. An object is truthy (the empty one too), so
  \<open>getItem\<close> returns it as it is, and it has none of the array methods.
\<close>

fun stored_logs :: "json_slot \<Rightarrow> alert_log list option" where
  "stored_logs Missing = Some []"
| "stored_logs (JsonArray logs) = Some logs"
| "stored_logs (JsonObject m) = None"

text \<open>
  \<open>getObj(AH.KEYS.CAREGIVER_ASSIGNMENT)[patientId]\<close>, as a caregiver id. On a stored
  array \<open>getObj\<close> returns the array, and the property read is \<open>undefined\<close>, an
  element, the length or a method; on a stored object a name that is not an own
  property gives \<open>undefined\<close> or an inherited method. None of these is a string, so
  none of them is \<open>===\<close> the id of a user: the callers find no caregiver, exactly as
  for \<open>None\<close>.
\<close>

fun assigned_id :: "string \<Rightarrow> json_slot \<Rightarrow> string option" where
  "assigned_id patientId Missing = None"
| "assigned_id patientId (JsonArray logs) = None"
| "assigned_id patientId (JsonObject m) = map_of m patientId"

subsection \<open>Phone validation\<close>

text \<open>\<open>\d\<close>\<close>

definition is_digit :: "char \<Rightarrow> bool" where
  "is_digit c = (c \<in> set ''0123456789'')"

text \<open>
  \<open>\s\<close>, and what \<open>trim\<close> strips: tab, line feed, vertical tab, form feed, carriage
  return, space and the no-break space (the white space below 256).
\<close>

definition is_space :: "char \<Rightarrow> bool" where
  "is_space c = (c \<in> set [CHR 0x09, CHR 0x0A, CHR 0x0B, CHR 0x0C, CHR 0x0D, CHR 0x20, CHR 0xA0])"

definition trim :: "string \<Rightarrow> string" where
  "trim s = rev (dropWhile is_space (rev (dropWhile is_space s)))"

text \<open>The class \<open>[\d\s\-().]\<close>\<close>

definition phone_class :: "char \<Rightarrow> bool" where
  "phone_class c = (is_digit c \<or> is_space c \<or> c \<in> set ''-().'')"

text \<open>\<open>[\d\s\-().]{7,20}$\<close> from the current position to the end of the input.\<close>

definition class_run :: "string \<Rightarrow> bool" where
  "class_run s = (7 \<le> length s \<and> length s \<le> 20 \<and> list_all phone_class s)"

text \<open>
  \<open>/^\+?[\d\s\-().]{7,20}$/.test\<close>: the optional plus is tried first, and the match
  without it when that fails.
\<close>

definition re_test :: "string \<Rightarrow> bool" where
  "re_test s = ((case s of [] \<Rightarrow> False | c # cs \<Rightarrow> c = CHR ''+'' \<and> class_run cs) \<or> class_run s)"

definition validatePhone :: "string \<Rightarrow> bool" where
  "validatePhone phone =
     (let cleaned = trim phone in
      if \<not> re_test cleaned then False
      else (let digits = filter is_digit cleaned
            in 7 \<le> length digits \<and> length digits \<le> 15))"

text \<open>
  The validator as the specification words it: an optional leading plus, then 7 to 20
  characters drawn from digits, space, dash, parentheses and period, with 7 to 15
  digits in all.
\<close>

definition spec_phone_char :: "char \<Rightarrow> bool" where
  "spec_phone_char c = (is_digit c \<or> c \<in> set '' -().'')"

definition spec_validatePhone :: "string \<Rightarrow> bool" where
  "spec_validatePhone s =
     (let body = (case s of [] \<Rightarrow> [] | c # cs \<Rightarrow> if c = CHR ''+'' then cs else s)
      in 7 \<le> length body \<and> length body \<le> 20 \<and> list_all spec_phone_char body
         \<and> 7 \<le> length (filter is_digit s) \<and> length (filter is_digit s) \<le> 15)"

subsection \<open>Emergency contacts\<close>

datatype op_result = Ok | Error string

definition addContact ::
  "instant \<Rightarrow> string \<Rightarrow> string \<Rightarrow> string \<Rightarrow> string \<Rightarrow> bool \<Rightarrow> store \<Rightarrow> op_result \<times> store" where
  "addContact now patientId name relation phone isPrimary st =
     (if trim name = [] \<or> trim phone = [] then (Error ''Name and phone number are required.'', st)
      else if \<not> validatePhone phone
        then (Error ''Invalid phone format. Use: +1-555-0101 or +919876543210'', st)
      else
        (let contacts = EMERGENCY_CONTACTS st;
             updated = (if isPrimary
                        then map (\<lambda>c. if c_patientId c = patientId then c\<lparr>c_isPrimary := False\<rparr> else c) contacts
                        else contacts);
             (i, st1) = uuid st
         in (Ok, st1\<lparr>EMERGENCY_CONTACTS := updated @
                  [\<lparr>c_id = i, c_patientId = patientId, c_name = trim name,
                    c_relation = or_else (Some (trim relation)) ''Emergency Contact'',
                    c_phone = trim phone, c_isPrimary = isPrimary,
                    c_notifiedAt = None, c_createdAt = Some now, c_updatedAt = None\<rparr>]\<rparr>)))"

text \<open>
  The \<open>fields\<close> argument of \<open>updateContact\<close>, with the fields its callers pass
  (the edit form and \<open>setPrimary\<close>); an absent field is \<open>None\<close>.
\<close>

record contact_fields =
  f_name :: "string option"
  f_relation :: "string option"
  f_phone :: "string option"
  f_isPrimary :: "bool option"

text \<open>\<open>{ ...c, ...fields, updatedAt }\<close>\<close>

definition merge_fields :: "instant \<Rightarrow> contact \<Rightarrow> contact_fields \<Rightarrow> contact" where
  "merge_fields now c flds =
     c\<lparr>c_name := (case f_name flds of None \<Rightarrow> c_name c | Some v \<Rightarrow> v),
       c_relation := (case f_relation flds of None \<Rightarrow> c_relation c | Some v \<Rightarrow> v),
       c_phone := (case f_phone flds of None \<Rightarrow> c_phone c | Some v \<Rightarrow> v),
       c_isPrimary := (case f_isPrimary flds of None \<Rightarrow> c_isPrimary c | Some v \<Rightarrow> v),
       c_updatedAt := Some now\<rparr>"

definition updateContact :: "instant \<Rightarrow> string \<Rightarrow> contact_fields \<Rightarrow> store \<Rightarrow> op_result \<times> store" where
  "updateContact now contactId flds st =
     (let contacts = EMERGENCY_CONTACTS st in
      case findIndex (\<lambda>c. c_id c = contactId) contacts of
        None \<Rightarrow> (Error ''Contact not found.'', st)
      | Some idx \<Rightarrow>
          if truthy (f_phone flds) \<and> \<not> validatePhone (or_else (f_phone flds) [])
          then (Error ''Invalid phone format.'', st)
          else
            (let pid = c_patientId (contacts ! idx);
                 updated = (if f_isPrimary flds = Some True
                            then map (\<lambda>(i, c). if i \<noteq> idx \<and> c_patientId c = pid
                                                then c\<lparr>c_isPrimary := False\<rparr> else c)
                                     (enumerate 0 contacts)
                            else contacts)
             in (Ok, st\<lparr>EMERGENCY_CONTACTS :=
                          updated[idx := merge_fields now (updated ! idx) flds]\<rparr>)))"

text \<open>
  The primary contacts of a patient, and the invariant of the contact directory:
  no patient of the directory has more than one.
\<close>

definition primaries :: "string \<Rightarrow> contact list \<Rightarrow> contact list" where
  "primaries p cs = filter (\<lambda>c. c_patientId c = p \<and> c_isPrimary c) cs"

definition single_primary :: "contact list \<Rightarrow> bool" where
  "single_primary cs = list_all (\<lambda>c. length (primaries (c_patientId c) cs) \<le> 1) cs"

subsection \<open>Audit trail and notification feed\<close>

text \<open>
  \<open>acknowledgeLog(logId, patientId)\<close> and \<open>acknowledgeAllLogs(patientId)\<close>. Both
  return \<open>Inl\<close> for the \<open>TypeError\<close> that the array method throws when the shared
  entry holds the caregiver object; nothing is written then.
\<close>

definition acknowledgeLog :: "instant \<Rightarrow> string \<Rightarrow> string \<Rightarrow> store \<Rightarrow> string + store" where
  "acknowledgeLog now logId patientId st =
     (case stored_logs (undefined_key st) of
        None \<Rightarrow> Inl ''TypeError: logs.findIndex is not a function''
      | Some logs \<Rightarrow>
          (case findIndex (\<lambda>l. l_id l = logId) logs of
             None \<Rightarrow> Inr st
           | Some idx \<Rightarrow>
               Inr (st\<lparr>undefined_key :=
                          JsonArray (logs[idx := (logs ! idx)\<lparr>l_acknowledgedAt := Some now\<rparr>])\<rparr>)))"

definition acknowledgeAllLogs :: "instant \<Rightarrow> string \<Rightarrow> store \<Rightarrow> string + store" where
  "acknowledgeAllLogs now patientId st =
     (case stored_logs (undefined_key st) of
        None \<Rightarrow> Inl ''TypeError: getItem(...).map is not a function''
      | Some logs \<Rightarrow>
          Inr (st\<lparr>undefined_key :=
                     JsonArray (map (\<lambda>l. if l_patientId l = patientId \<and> l_acknowledgedAt l = None
                                          then l\<lparr>l_acknowledgedAt := Some now\<rparr> else l)
                                    logs)\<rparr>))"

definition clearAllNotifications :: "string \<Rightarrow> store \<Rightarrow> store" where
  "clearAllNotifications patientId st =
     st\<lparr>NOTIFICATIONS := filter (\<lambda>n. n_patientId n \<noteq> patientId) (NOTIFICATIONS st)\<rparr>"

subsection \<open>The SMS gateway\<close>

record send_result =
  r_ok :: bool
  r_status :: delivery_status
  r_provider :: string
  r_httpStatus :: "nat option"
  r_error :: "string option"

text \<open>
  What the network does to one call, as the awaited promises settle: \<open>Failure msg\<close>
  when an exception reaches the \<open>catch\<close> (the \<open>fetch\<close> rejects, or a statement of the
  \<open>try\<close> block throws), \<open>Response ok status json\<close> when \<open>fetch\<close> resolves with
  \<open>response.ok\<close> and \<open>response.status\<close>; \<open>json\<close> is \<open>None\<close> when \<open>response.json()\<close>
  fails to parse and otherwise says whether \<open>data.return === true\<close>.
\<close>

datatype transport = Failure string | Response bool nat "bool option"

text \<open>\<open>setMode(mode, config)\<close>\<close>

definition setMode :: "string \<Rightarrow> gateway_config option \<Rightarrow> store \<Rightarrow> store" where
  "setMode mode config st = st\<lparr>sms_mode := mode, sms_config := config\<rparr>"

text \<open>\<open>btoa\<close> accepts the code units below 256.\<close>

fun latin1 :: "nat list \<Rightarrow> bool" where
  "latin1 [] = True"
| "latin1 (c # cs) = (c < 256 \<and> latin1 cs)"

text \<open>
  The exception, if any, that the \<open>try\<close> block throws before its first \<open>await\<close>:
  destructuring \<open>_config\<close> when it is \<open>null\<close>, in both network modes, and \<open>btoa\<close> of
  \<open>accountSid:authToken\<close> in the twilio mode (an absent field is rendered as
  \<open>undefined\<close> by the template, which \<open>btoa\<close> accepts). \<open>fetch\<close> itself does not
  throw: it returns a promise.
\<close>

definition before_await :: "string \<Rightarrow> gateway_config option \<Rightarrow> string option" where
  "before_await mode config =
     (if mode = ''twilio''
      then (case config of
              None \<Rightarrow> Some ''TypeError: Cannot destructure property 'accountSid' of '_config' as it is null.''
            | Some c \<Rightarrow>
                (if latin1 (case cfg_accountSid c of None \<Rightarrow> [] | Some u \<Rightarrow> u)
                    \<and> latin1 (case cfg_authToken c of None \<Rightarrow> [] | Some u \<Rightarrow> u)
                 then None
                 else Some ''InvalidCharacterError: The string to be encoded contains characters outside of the Latin1 range.''))
      else if mode = ''fast2sms''
      then (case config of
              None \<Rightarrow> Some ''TypeError: Cannot destructure property 'apiKey' of '_config' as it is null.''
            | Some c \<Rightarrow> None)
      else None)"

text \<open>
  The \<open>try\<close> block: \<open>Inl\<close> is the exception thrown out of it, \<open>Inr\<close> the value of
  \<open>result\<close> at its end. \<open>pending\<close> is the \<open>result\<close> the call starts with, and
  \<open>config\<close> is \<open>_config\<close> as the block reads it, before the first \<open>await\<close>.
\<close>

definition try_block ::
  "string \<Rightarrow> gateway_config option \<Rightarrow> send_result \<Rightarrow> transport \<Rightarrow> string + send_result" where
  "try_block mode config pending tr =
     (if mode = ''simulation''
      then Inr \<lparr>r_ok = True, r_status = SIMULATED, r_provider = ''simulation'',
                r_httpStatus = None, r_error = None\<rparr>
      else if mode = ''twilio''
      then (case before_await mode config of
              Some err \<Rightarrow> Inl err
            | None \<Rightarrow>
                (case tr of
                   Failure err \<Rightarrow> Inl err
                 | Response ok code js \<Rightarrow>
                     Inr \<lparr>r_ok = ok, r_status = (if ok then SENT else FAILED), r_provider = ''twilio'',
                          r_httpStatus = Some code, r_error = None\<rparr>))
      else if mode = ''fast2sms''
      then (case before_await mode config of
              Some err \<Rightarrow> Inl err
            | None \<Rightarrow>
                (case tr of
                   Failure err \<Rightarrow> Inl err
                 | Response ok code None \<Rightarrow> Inl ''Unexpected token in JSON''
                 | Response ok code (Some ret) \<Rightarrow>
                     Inr \<lparr>r_ok = ret, r_status = (if ret then SENT else FAILED), r_provider = ''fast2sms'',
                          r_httpStatus = None, r_error = None\<rparr>))
      else Inr pending)"

text \<open>
  The audit entry, \<open>logs.unshift(logEntry)\<close> and \<open>setItem\<close>. The statements are
  outside the \<open>try\<close> block. When the shared entry holds the caregiver object,
  \<open>getItem\<close> returns that object and \<open>logs.unshift\<close> throws (\<open>Inl\<close>): the id of the
  entry is drawn already, and nothing is stored.
\<close>

definition write_log ::
  "string \<Rightarrow> sms_body \<Rightarrow> send_meta \<Rightarrow> send_result \<Rightarrow> instant \<Rightarrow> store \<Rightarrow> (string + unit) \<times> store" where
  "write_log to body meta result clock st =
     (let (i, st1) = uuid st;
          logEntry = \<lparr>l_id = i,
                      l_patientId = or_else (meta_patientId meta) [],
                      l_doseId = or_else (meta_doseId meta) [],
                      l_medName = or_else (meta_medName meta) [],
                      l_medDosage = or_else (meta_medDosage meta) [],
                      l_scheduledTime = meta_scheduledTime meta,
                      l_contactId = or_else (meta_contactId meta) [],
                      l_contactName = or_else (meta_contactName meta) [],
                      l_contactPhone = to,
                      l_contactRole = or_else (meta_contactRole meta) [],
                      l_type = or_else (meta_type meta) ''emergency_contact'',
                      l_smsMessage = body,
                      l_deliveryStatus = r_status result,
                      l_provider = r_provider result,
                      l_triggeredAt = clock,
                      l_acknowledgedAt = None\<rparr>
      in case stored_logs (undefined_key st1) of
           None \<Rightarrow> (Inl ''TypeError: logs.unshift is not a function'', st1)
         | Some logs \<Rightarrow> (Inr (), st1\<lparr>undefined_key := JsonArray (logEntry # logs)\<rparr>))"

text \<open>
  \<open>SMSGateway.send(to, body, meta)\<close>. \<open>mode\<close> and \<open>config\<close> are \<open>_mode\<close> and
  \<open>_config\<close> as the call reads them before its first \<open>await\<close>, \<open>tr\<close> what the network
  does, and \<open>st\<close> the store when the body reaches the \<open>catch\<close> and the audit entry:
  the store of the call itself where nothing is awaited, a later one where the call
  was suspended. \<open>clock\<close> is the \<open>new Date()\<close> of the entry. \<open>Inr\<close> is what the
  returned promise resolves to; \<open>Inl\<close> is the exception it is rejected with, which
  can only come from the statements after the \<open>catch\<close>.
\<close>

definition initial_result :: "string \<Rightarrow> send_result" where
  "initial_result mode = \<lparr>r_ok = False, r_status = PENDING, r_provider = mode,
                           r_httpStatus = None, r_error = None\<rparr>"

definition send ::
  "string \<Rightarrow> gateway_config option \<Rightarrow> string \<Rightarrow> sms_body \<Rightarrow> send_meta \<Rightarrow> transport \<Rightarrow> instant
     \<Rightarrow> store \<Rightarrow> (string + send_result) \<times> store" where
  "send mode config to body meta tr clock st =
     (let result = (case try_block mode config (initial_result mode) tr of
                      Inr r \<Rightarrow> r
                    | Inl err \<Rightarrow> \<lparr>r_ok = False, r_status = FAILED, r_provider = sms_mode st,
                                   r_httpStatus = None, r_error = Some err\<rparr>);
          (written, st1) = write_log to body meta result clock st
      in case written of
           Inl err \<Rightarrow> (Inl err, st1)
         | Inr u \<Rightarrow> (Inr result, st1))"

text \<open>The modes whose branch has an \<open>await\<close>, and the calls that reach it.\<close>

definition awaits :: "string \<Rightarrow> bool" where
  "awaits mode = (mode = ''twilio'' \<or> mode = ''fast2sms'')"

definition suspends :: "string \<Rightarrow> gateway_config option \<Rightarrow> bool" where
  "suspends mode config = (awaits mode \<and> before_await mode config = None)"

text \<open>
  A call \<open>SMSGateway.send(...).then(cb)\<close> as the detector makes it, without waiting.
  \<open>send\<close> is an \<open>async\<close> function, so nothing it throws reaches the caller. Where the
  call reaches an \<open>await\<close>, it is suspended and joins \<open>in_flight\<close>. Otherwise the
  body runs to its end inside the call and no transport is consulted: that is the
  simulation mode, an unknown mode, and a network mode whose code before the first
  \<open>await\<close> throws. The callback is queued when the promise is resolved; when the
  promise is rejected the callback never runs.
\<close>

definition dispatch ::
  "string \<Rightarrow> sms_body \<Rightarrow> send_meta \<Rightarrow> (string \<times> instant) option \<Rightarrow> instant \<Rightarrow> store \<Rightarrow> store" where
  "dispatch to body meta cb clock st =
     (let st0 = st\<lparr>gateway_calls := gateway_calls st @ [to]\<rparr> in
      if suspends (sms_mode st0) (sms_config st0)
      then st0\<lparr>in_flight := in_flight st0 @
                  [\<lparr>fl_to = to, fl_body = body, fl_meta = meta, fl_mode = sms_mode st0,
                    fl_config = sms_config st0, fl_then = cb\<rparr>]\<rparr>
      else (let (res, st1) = send (sms_mode st0) (sms_config st0) to body meta (Failure []) clock st0
            in case res of
                 Inl err \<Rightarrow> st1
               | Inr r \<Rightarrow> (case cb of None \<Rightarrow> st1 | Some t \<Rightarrow> st1\<lparr>microtasks := microtasks st1 @ [t]\<rparr>)))"

text \<open>The callback chained for an emergency contact: \<open>notifiedAt = nowIso\<close>.\<close>

definition notify_contact :: "string \<times> instant \<Rightarrow> store \<Rightarrow> store" where
  "notify_contact t st =
     (let ecs = EMERGENCY_CONTACTS st in
      case findIndex (\<lambda>c. c_id c = fst t) ecs of
        None \<Rightarrow> st
      | Some idx \<Rightarrow> st\<lparr>EMERGENCY_CONTACTS := ecs[idx := (ecs ! idx)\<lparr>c_notifiedAt := Some (snd t)\<rparr>]\<rparr>)"

definition run_microtasks :: "store \<Rightarrow> store" where
  "run_microtasks st = fold notify_contact (microtasks st) (st\<lparr>microtasks := []\<rparr>)"

text \<open>
  The suspended send at position \<open>i\<close> settles with \<open>tr\<close>: it completes, then its
  callback runs, unless the promise is rejected.
\<close>

definition settle :: "nat \<Rightarrow> transport \<Rightarrow> instant \<Rightarrow> store \<Rightarrow> store" where
  "settle i tr clock st =
     (if i < length (in_flight st)
      then (let p = in_flight st ! i;
                st1 = st\<lparr>in_flight := take i (in_flight st) @ drop (Suc i) (in_flight st)\<rparr>;
                (res, st2) = send (fl_mode p) (fl_config p) (fl_to p) (fl_body p) (fl_meta p) tr clock st1
            in case res of
                 Inl err \<Rightarrow> st2
               | Inr r \<Rightarrow> (case fl_then p of None \<Rightarrow> st2 | Some t \<Rightarrow> notify_contact t st2))
      else st)"

subsection \<open>Caregiver assignment\<close>

text \<open>
  \<open>assignCaregiver(patientId, caregiverId)\<close>. On a stored object the property is
  set in place or appended, or deleted. On a stored array of audit entries the
  property is set on the array, and \<open>JSON.stringify\<close> writes the array back without
  it (a patient id is \<open>'id_...'\<close> from \<open>uuid\<close> or a seeded \<open>'demo_...'\<close>, never an
  array index or \<open>length\<close>): the assignment is lost.
\<close>

definition assignCaregiver :: "string \<Rightarrow> string option \<Rightarrow> store \<Rightarrow> store" where
  "assignCaregiver patientId caregiverId st =
     (let put = (\<lambda>m. if truthy caregiverId
                      then (if map_of m patientId = None
                            then m @ [(patientId, or_else caregiverId [])]
                            else map (\<lambda>kv. if fst kv = patientId
                                            then (patientId, or_else caregiverId []) else kv) m)
                      else filter (\<lambda>kv. fst kv \<noteq> patientId) m)
      in case undefined_key st of
           Missing \<Rightarrow> st\<lparr>undefined_key := JsonObject (put [])\<rparr>
         | JsonObject m \<Rightarrow> st\<lparr>undefined_key := JsonObject (put m)\<rparr>
         | JsonArray logs \<Rightarrow> st\<lparr>undefined_key := JsonArray logs\<rparr>)"

definition getAssignedCaregiver :: "string \<Rightarrow> store \<Rightarrow> user option" where
  "getAssignedCaregiver patientId st =
     (let cgId = assigned_id patientId (undefined_key st) in
      if \<not> truthy cgId then None
      else find (\<lambda>u. u_id u = or_else cgId []) (USERS st))"

subsection \<open>Missed-dose detection (v3)\<close>

text \<open>\<open>new Set(existingNotifs.filter(n => n.doseId).map(n => n.doseId))\<close>\<close>

fun notified_ids :: "notification list \<Rightarrow> string list" where
  "notified_ids [] = []"
| "notified_ids (n # ns) =
     (if truthy (n_doseId n) then or_else (n_doseId n) [] # notified_ids ns else notified_ids ns)"

text \<open>\<open>contacts.map(contact => ...)\<close>: one send and one \<open>sms_sent\<close> notification per contact.\<close>

fun sms_contacts ::
  "instant \<Rightarrow> string \<Rightarrow> dose \<Rightarrow> medication \<Rightarrow> sms_body \<Rightarrow> contact list \<Rightarrow> store
     \<Rightarrow> notification list \<times> store" where
  "sms_contacts now patientId dose med smsBody [] st = ([], st)"
| "sms_contacts now patientId dose med smsBody (contact # rest) st =
     (let st1 = dispatch (c_phone contact) smsBody
                  \<lparr>meta_patientId = Some patientId, meta_doseId = Some (d_id dose),
                   meta_medName = Some (m_name med), meta_medDosage = Some (m_dosage med),
                   meta_scheduledTime = d_scheduledTime dose,
                   meta_contactId = Some (c_id contact), meta_contactName = Some (c_name contact),
                   meta_contactRole = Some (or_else (Some (c_relation contact)) ''Emergency Contact''),
                   meta_type = Some ''emergency_contact''\<rparr>
                  (Some (c_id contact, now)) now st;
          (i, st2) = uuid st1;
          notif = \<lparr>n_id = i, n_patientId = patientId, n_doseId = Some (d_id dose),
                   n_type = SMS_SENT,
                   n_message = SmsSentMsg (c_name contact)
                                 (or_else (Some (c_relation contact)) ''Emergency Contact'')
                                 (c_phone contact) (c_isPrimary contact),
                   n_timestamp = now, n_read = False,
                   n_contactId = Some (c_id contact), n_caregiverId = None\<rparr>;
          (notifs, st3) = sms_contacts now patientId dose med smsBody rest st2
      in (notif # notifs, st3))"

text \<open>The caregiver block: one send and one \<open>caregiver_alert\<close> notification, if a caregiver was found.\<close>

definition caregiver_alert ::
  "instant \<Rightarrow> string \<Rightarrow> dose \<Rightarrow> medication \<Rightarrow> sms_body \<Rightarrow> (string \<times> user) option \<Rightarrow> store
     \<Rightarrow> notification list \<times> store" where
  "caregiver_alert now patientId dose med smsBody caregiver st =
     (case caregiver of
        None \<Rightarrow> ([], st)
      | Some (caregiverId, cg) \<Rightarrow>
          (let st1 = dispatch (or_else (u_phone cg) (u_email cg)) smsBody
                       \<lparr>meta_patientId = Some patientId, meta_doseId = Some (d_id dose),
                        meta_medName = Some (m_name med), meta_medDosage = Some (m_dosage med),
                        meta_scheduledTime = d_scheduledTime dose,
                        meta_contactId = Some (u_id cg), meta_contactName = Some (u_name cg),
                        meta_contactRole = Some ''Assigned Caregiver'',
                        meta_type = Some ''caregiver''\<rparr>
                       None now st;
               (i, st2) = uuid st1
           in ([\<lparr>n_id = i, n_patientId = patientId, n_doseId = Some (d_id dose),
                  n_type = CAREGIVER_ALERT,
                  n_message = CaregiverMsg (u_name cg) (m_name med),
                  n_timestamp = now, n_read = False,
                  n_contactId = None, n_caregiverId = Some caregiverId\<rparr>], st2)))"

text \<open>The alert cycle of one dose: the body of the loop past its two early returns.\<close>

definition alert_cycle ::
  "instant \<Rightarrow> string \<Rightarrow> user \<Rightarrow> contact list \<Rightarrow> (string \<times> user) option \<Rightarrow> dose \<Rightarrow> instant
     \<Rightarrow> medication \<Rightarrow> store \<Rightarrow> store" where
  "alert_cycle now patientId patient contacts caregiver dose due med st =
     (let smsBody = SMS_TEMPLATE (u_name patient) (m_name med) (m_dosage med) due;
          (i, st1) = uuid st;
          missedNotif = \<lparr>n_id = i, n_patientId = patientId, n_doseId = Some (d_id dose),
                         n_type = MISSED_DOSE,
                         n_message = MissedDoseMsg (m_name med) (m_dosage med) due,
                         n_timestamp = now, n_read = False,
                         n_contactId = None, n_caregiverId = None\<rparr>;
          (smsNotifs, st2) = sms_contacts now patientId dose med smsBody contacts st1;
          (caregiverNotif, st3) = caregiver_alert now patientId dose med smsBody caregiver st2;
          toAdd = [missedNotif] @ smsNotifs @ caregiverNotif
      in st3\<lparr>NOTIFICATIONS := NOTIFICATIONS st3 @ toAdd\<rparr>)"

text \<open>
  One turn of \<open>allDoses.forEach\<close>, on the pair of \<open>newCount\<close> and the store. The
  filter before the loop keeps only doses with a scheduled time, so the first case
  is never taken.
\<close>

definition scan_dose ::
  "instant \<Rightarrow> string \<Rightarrow> user \<Rightarrow> contact list \<Rightarrow> (string \<times> user) option \<Rightarrow> medication list
     \<Rightarrow> string list \<Rightarrow> nat \<times> store \<Rightarrow> dose \<Rightarrow> nat \<times> store" where
  "scan_dose now patientId patient contacts caregiver meds alreadyNotified acc dose =
     (case d_scheduledTime dose of
        None \<Rightarrow> acc
      | Some due \<Rightarrow>
          (let overdueMs = now - due in
           if overdueMs < thresholdMs \<or> d_id dose \<in> set alreadyNotified then acc
           else (case find (\<lambda>m. m_id m = d_medId dose) meds of
                   None \<Rightarrow> acc
                 | Some med \<Rightarrow>
                     (Suc (fst acc),
                      alert_cycle now patientId patient contacts caregiver dose due med (snd acc)))))"

definition detectMissedDoses :: "instant \<Rightarrow> string \<Rightarrow> store \<Rightarrow> nat \<times> store" where
  "detectMissedDoses now patientId st =
     (let allDoses = filter (\<lambda>d. d_patientId d = patientId \<and> d_takenAt d = None
                                  \<and> d_scheduledTime d \<noteq> None) (DOSES st);
          existingNotifs = NOTIFICATIONS st;
          alreadyNotified = notified_ids existingNotifs;
          meds = MEDICATIONS st;
          users = USERS st
      in case find (\<lambda>u. u_id u = patientId) users of
           None \<Rightarrow> (0, st)
         | Some patient \<Rightarrow>
             (let contacts = filter (\<lambda>c. c_patientId c = patientId) (EMERGENCY_CONTACTS st);
                  caregiverId = assigned_id patientId (undefined_key st);
                  caregiver = (if truthy caregiverId
                               then (case find (\<lambda>u. u_id u = or_else caregiverId []) users of
                                       None \<Rightarrow> None
                                     | Some cg \<Rightarrow> Some (or_else caregiverId [], cg))
                               else None)
              in foldl (scan_dose now patientId patient contacts caregiver meds alreadyNotified)
                       (0, st) allDoses))"

subsection \<open>Missed-dose detection (earlier variant)\<close>

text \<open>\<open>contacts.forEach(contact => newNotifications.push(smsNotif))\<close>\<close>

fun sms_contacts_legacy ::
  "instant \<Rightarrow> string \<Rightarrow> user option \<Rightarrow> dose \<Rightarrow> instant \<Rightarrow> medication \<Rightarrow> contact list \<Rightarrow> store
     \<Rightarrow> notification list \<times> store" where
  "sms_contacts_legacy now patientId patient dose due med [] st = ([], st)"
| "sms_contacts_legacy now patientId patient dose due med (contact # rest) st =
     (let (i, st1) = uuid_legacy st;
          smsNotif = \<lparr>n_id = i, n_patientId = patientId, n_doseId = Some (d_id dose),
                      n_type = SMS_SENT,
                      n_message = LegacySmsMsg (c_name contact) (c_relation contact) (c_phone contact)
                                    (case patient of None \<Rightarrow> ''Patient'' | Some u \<Rightarrow> u_name u)
                                    (m_name med) due,
                      n_timestamp = now, n_read = False,
                      n_contactId = Some (c_id contact), n_caregiverId = None\<rparr>;
          (notifs, st2) = sms_contacts_legacy now patientId patient dose due med rest st1
      in (smsNotif # notifs, st2))"

text \<open>One turn of the loop, on the pair of \<open>newNotifications\<close> and the store.\<close>

definition scan_dose_legacy ::
  "instant \<Rightarrow> string \<Rightarrow> user option \<Rightarrow> medication list \<Rightarrow> string list
     \<Rightarrow> notification list \<times> store \<Rightarrow> dose \<Rightarrow> notification list \<times> store" where
  "scan_dose_legacy now patientId patient meds alreadyNotified acc dose =
     (case d_scheduledTime dose of
        None \<Rightarrow> acc
      | Some due \<Rightarrow>
          (let overdueMs = now - due in
           if overdueMs \<ge> thresholdMs \<and> d_id dose \<notin> set alreadyNotified
           then (case find (\<lambda>m. m_id m = d_medId dose) meds of
                   None \<Rightarrow> acc
                 | Some med \<Rightarrow>
                     (let (i, st1) = uuid_legacy (snd acc);
                          missedNotif = \<lparr>n_id = i, n_patientId = patientId, n_doseId = Some (d_id dose),
                                         n_type = MISSED_DOSE,
                                         n_message = LegacyMissedMsg (m_name med) (m_dosage med) due,
                                         n_timestamp = now, n_read = False,
                                         n_contactId = None, n_caregiverId = None\<rparr>;
                          contacts = filter (\<lambda>c. c_patientId c = patientId) (EMERGENCY_CONTACTS st1);
                          (smsNotifs, st2) = sms_contacts_legacy now patientId patient dose due med contacts st1
                      in (fst acc @ [missedNotif] @ smsNotifs, st2)))
           else acc))"

definition detectMissedDoses_legacy :: "instant \<Rightarrow> string \<Rightarrow> store \<Rightarrow> nat \<times> store" where
  "detectMissedDoses_legacy now patientId st =
     (let allDoses = filter (\<lambda>d. d_patientId d = patientId \<and> d_takenAt d = None
                                  \<and> d_scheduledTime d \<noteq> None) (DOSES st);
          notifications = NOTIFICATIONS st;
          alreadyNotified = notified_ids notifications;
          meds = MEDICATIONS st;
          users = USERS st;
          patient = find (\<lambda>u. u_id u = patientId) users;
          (newNotifications, st1) =
             foldl (scan_dose_legacy now patientId patient meds alreadyNotified) ([], st) allDoses
      in (length newNotifications,
          if newNotifications \<noteq> []
          then st1\<lparr>NOTIFICATIONS := NOTIFICATIONS st1 @ newNotifications\<rparr>
          else st1))"

subsection \<open>Reading the effect of a call\<close>

text \<open>The notifications a call appended to the feed, from the store before and after.\<close>

definition new_notifications :: "store \<Rightarrow> store \<Rightarrow> notification list" where
  "new_notifications st st' = drop (length (NOTIFICATIONS st)) (NOTIFICATIONS st')"

definition count_type :: "notif_type \<Rightarrow> notification list \<Rightarrow> nat" where
  "count_type t ns = length (filter (\<lambda>n. n_type n = t) ns)"

text \<open>An alert cycle fired for the dose with this id: its \<open>missed_dose\<close> notification is among \<open>ns\<close>.\<close>

definition alerted :: "string \<Rightarrow> notification list \<Rightarrow> bool" where
  "alerted i ns = list_ex (\<lambda>n. n_type n = MISSED_DOSE \<and> n_doseId n = Some i) ns"

text \<open>The emergency contacts of a patient, as the detector selects them.\<close>

definition contacts_of :: "string \<Rightarrow> store \<Rightarrow> contact list" where
  "contacts_of patientId st = filter (\<lambda>c. c_patientId c = patientId) (EMERGENCY_CONTACTS st)"

text \<open>What identifies a notification for the detector: type, dose and patient.\<close>

definition sig :: "notification \<Rightarrow> notif_type \<times> string option \<times> string" where
  "sig n = (n_type n, n_doseId n, n_patientId n)"

text \<open>The notifications of one alert cycle, by type, dose and patient, in the order they are appended.\<close>

definition cycle_sigs ::
  "string \<Rightarrow> contact list \<Rightarrow> 'a option \<Rightarrow> dose \<Rightarrow> (notif_type \<times> string option \<times> string) list" where
  "cycle_sigs p cs cg dose =
     (MISSED_DOSE, Some (d_id dose), p) # replicate (length cs) (SMS_SENT, Some (d_id dose), p)
       @ (case cg of None \<Rightarrow> [] | Some x \<Rightarrow> [(CAREGIVER_ALERT, Some (d_id dose), p)])"

text \<open>The number of gateway calls of one alert cycle: every contact, and the caregiver if there is one.\<close>

definition fan_out :: "contact list \<Rightarrow> 'a option \<Rightarrow> nat" where
  "fan_out cs cg = length cs + (case cg of None \<Rightarrow> 0 | Some x \<Rightarrow> 1)"

text \<open>The recipients of the gateway calls of one alert cycle, in the order of the calls.\<close>

definition recipients :: "contact list \<Rightarrow> (string \<times> user) option \<Rightarrow> string list" where
  "recipients cs cg =
     map c_phone cs @ (case cg of None \<Rightarrow> [] | Some x \<Rightarrow> [or_else (u_phone (snd x)) (u_email (snd x))])"

text \<open>The entries of the audit trail that a reader of the shared entry finds.\<close>

definition audit_rows :: "store \<Rightarrow> alert_log list" where
  "audit_rows st = (case stored_logs (undefined_key st) of None \<Rightarrow> [] | Some logs \<Rightarrow> logs)"

text \<open>
  A newly missed dose, as the specification describes it: scheduled, overdue by the
  threshold or more, not notified yet, and with its medication on record.
\<close>

definition fires :: "instant \<Rightarrow> medication list \<Rightarrow> string list \<Rightarrow> dose \<Rightarrow> bool" where
  "fires now meds already d =
     (case d_scheduledTime d of
        None \<Rightarrow> False
      | Some due \<Rightarrow> thresholdMs \<le> now - due \<and> d_id d \<notin> set already
                     \<and> find (\<lambda>m. m_id m = d_medId d) meds \<noteq> None)"

text \<open>The untaken doses of a patient that are newly missed at \<open>now\<close>.\<close>

definition new_misses :: "instant \<Rightarrow> string \<Rightarrow> store \<Rightarrow> dose list" where
  "new_misses now p st =
     filter (\<lambda>d. d_patientId d = p \<and> d_takenAt d = None
                 \<and> fires now (MEDICATIONS st) (notified_ids (NOTIFICATIONS st)) d) (DOSES st)"

text \<open>The doses a scan visits: \<open>allDoses\<close> of the detector.\<close>

definition allDoses :: "string \<Rightarrow> store \<Rightarrow> dose list" where
  "allDoses p st =
     filter (\<lambda>d. d_patientId d = p \<and> d_takenAt d = None \<and> d_scheduledTime d \<noteq> None) (DOSES st)"

text \<open>The caregiver as the detector resolves it, with the assigned id.\<close>

definition scan_caregiver :: "string \<Rightarrow> store \<Rightarrow> (string \<times> user) option" where
  "scan_caregiver p st =
     (let caregiverId = assigned_id p (undefined_key st) in
      if truthy caregiverId
      then (case find (\<lambda>u. u_id u = or_else caregiverId []) (USERS st) of
              None \<Rightarrow> None
            | Some cg \<Rightarrow> Some (or_else caregiverId [], cg))
      else None)"

text \<open>The second store is the first one but for the draws of \<open>uuid\<close>.\<close>

definition same_but_entropy :: "store \<Rightarrow> store \<Rightarrow> bool" where
  "same_but_entropy st st' = (st' = st\<lparr>entropy := entropy st'\<rparr>)"

text \<open>
  Suspended sends settle one after the other, each at a position of \<open>in_flight\<close> and
  with what the network did to it.
\<close>

definition settle_all :: "(nat \<times> transport) list \<Rightarrow> instant \<Rightarrow> store \<Rightarrow> store" where
  "settle_all sched clock st = fold (\<lambda>(i, tr) s. settle i tr clock s) sched st"

subsection \<open>A store to run the code on\<close>

text \<open>
  The seeded demo data, cut down to one medication and one untaken dose scheduled at
  instant 0: a patient, a caregiver, two emergency contacts (the first one primary),
  an empty feed, the gateway as it is created (simulation mode, configuration \<open>{}\<close>).
  The shared entry is what \<open>assignCaregiver('demo_patient', 'demo_caregiver')\<close> writes
  on the fresh storage.
\<close>

definition demo_dose :: dose where
  "demo_dose = \<lparr>d_id = ''dose_1'', d_medId = ''med_1'', d_patientId = ''demo_patient'',
                 d_scheduledTime = Some 0, d_takenAt = None\<rparr>"

definition demo_store :: store where
  "demo_store =
     \<lparr>USERS = [\<lparr>u_id = ''demo_patient'', u_name = ''Alex Johnson'', u_email = ''patient@demo.com'',
                 u_phone = None\<rparr>,
                \<lparr>u_id = ''demo_caregiver'', u_name = ''Emma Williams'', u_email = ''caregiver@demo.com'',
                 u_phone = None\<rparr>],
      MEDICATIONS = [\<lparr>m_id = ''med_1'', m_name = ''Metformin'', m_dosage = ''500mg''\<rparr>],
      DOSES = [demo_dose],
      EMERGENCY_CONTACTS =
        [\<lparr>c_id = ''ec_1'', c_patientId = ''demo_patient'', c_name = ''Mary Johnson'',
          c_relation = ''Mother'', c_phone = ''+1-555-0101'', c_isPrimary = True,
          c_notifiedAt = None, c_createdAt = None, c_updatedAt = None\<rparr>,
         \<lparr>c_id = ''ec_2'', c_patientId = ''demo_patient'', c_name = ''Robert Johnson'',
          c_relation = ''Father'', c_phone = ''+1-555-0102'', c_isPrimary = False,
          c_notifiedAt = None, c_createdAt = None, c_updatedAt = None\<rparr>],
      NOTIFICATIONS = [],
      undefined_key = JsonObject [(''demo_patient'', ''demo_caregiver'')],
      sms_mode = ''simulation'',
      sms_config = Some \<lparr>cfg_accountSid = None, cfg_authToken = None\<rparr>,
      microtasks = [],
      in_flight = [],
      gateway_calls = [],
      entropy = 0\<rparr>"

text \<open>One entry of the audit trail, already acknowledged at instant 1000.\<close>

definition demo_log :: alert_log where
  "demo_log =
     \<lparr>l_id = ''log_1'', l_patientId = ''demo_patient'', l_doseId = ''dose_1'',
      l_medName = ''Metformin'', l_medDosage = ''500mg'', l_scheduledTime = Some 0,
      l_contactId = ''ec_1'', l_contactName = ''Mary Johnson'', l_contactPhone = ''+1-555-0101'',
      l_contactRole = ''Mother'', l_type = ''emergency_contact'',
      l_smsMessage = SMS_TEMPLATE ''Alex Johnson'' ''Metformin'' ''500mg'' 0,
      l_deliveryStatus = SIMULATED, l_provider = ''simulation'', l_triggeredAt = 900,
      l_acknowledgedAt = Some 1000\<rparr>"

section \<open>Phone validation and the contact form (C9)\<close>

lemma plus_not_class: "\<not> phone_class CHR ''+''"
  by (simp add: phone_class_def is_digit_def is_space_def)

lemma re_test_body:
  "re_test t = (let body = (case t of [] \<Rightarrow> [] | c # cs \<Rightarrow> if c = CHR ''+'' then cs else t)
                in 7 \<le> length body \<and> length body \<le> 20 \<and> list_all phone_class body)"
proof (cases t)
  case Nil
  then show ?thesis by (simp add: re_test_def class_run_def)
next
  case (Cons c cs)
  show ?thesis
  proof (cases "c = CHR ''+''")
    case True
    with Cons plus_not_class show ?thesis
      by (auto simp: re_test_def class_run_def)
  next
    case False
    with Cons show ?thesis
      by (simp add: re_test_def class_run_def)
  qed
qed

lemma class_agree:
  "is_space c \<longrightarrow> c = CHR '' '' \<Longrightarrow> phone_class c = spec_phone_char c"
  by (auto simp: phone_class_def spec_phone_char_def is_space_def)

lemma validatePhone_spec_agree:
  assumes "trim s = s" and "\<forall>c\<in>set s. is_space c \<longrightarrow> c = CHR '' ''"
  shows "validatePhone s = spec_validatePhone s"
proof -
  let ?body = "(case s of [] \<Rightarrow> [] | c # cs \<Rightarrow> if c = CHR ''+'' then cs else s)"
  have "set ?body \<subseteq> set s" by (cases s) auto
  with assms(2) have "\<forall>c\<in>set ?body. phone_class c = spec_phone_char c"
    using class_agree by blast
  then have "list_all phone_class ?body = list_all spec_phone_char ?body"
    by (simp add: list_all_iff)
  then show ?thesis
    using assms(1) by (auto simp: validatePhone_def re_test_body spec_validatePhone_def Let_def)
qed

lemma addContact_rejects:
  "name = [] \<or> phone = [] \<or> \<not> validatePhone phone \<Longrightarrow>
   \<exists>e. addContact now p name relation phone prim st = (Error e, st)"
  by (auto simp: addContact_def trim_def)

text \<open>
  C9, as the claim states it, fails: the validator does not accept exactly the strings
  the claim describes. It trims first, so a space before the plus is accepted, while the
  described set has no string that starts with a space followed by a plus.
\<close>

theorem validatePhone_not_exactly_spec:
  "validatePhone '' +5550101'' \<and> \<not> spec_validatePhone '' +5550101''"
  by (simp add: validatePhone_def trim_def is_space_def re_test_def class_run_def phone_class_def
        is_digit_def spec_validatePhone_def spec_phone_char_def)

text \<open>
  C9 amended. \<open>validatePhone\<close> strips leading and trailing white space, then accepts
  exactly the strings made of an optional leading plus followed by 7 to 20 characters
  drawn from digits, white space (any character of \<open>\s\<close>, not the space alone), dash,
  parentheses and period, whose digits number 7 to 15. On a string with no white space
  at either end and no white space but the space, that is the set the claim describes.
  \<open>+919876543210\<close> and \<open>555-0101\<close> validate, \<open>abc\<close> does not. \<open>addContact\<close> returns an
  error and leaves the store as it was when the name or the phone is empty or the phone
  fails the validator.
\<close>

theorem validatePhone_amended:
  "(validatePhone s \<longleftrightarrow>
      (let t = trim s;
           body = (case t of [] \<Rightarrow> [] | c # cs \<Rightarrow> if c = CHR ''+'' then cs else t)
       in 7 \<le> length body \<and> length body \<le> 20 \<and> list_all phone_class body
          \<and> 7 \<le> length (filter is_digit t) \<and> length (filter is_digit t) \<le> 15))
   \<and> (trim s = s \<and> (\<forall>c\<in>set s. is_space c \<longrightarrow> c = CHR '' '') \<longrightarrow> validatePhone s = spec_validatePhone s)
   \<and> validatePhone ''+919876543210'' \<and> validatePhone ''555-0101'' \<and> \<not> validatePhone ''abc''
   \<and> (name = [] \<or> phone = [] \<or> \<not> validatePhone phone \<longrightarrow>
        (\<exists>e. addContact now p name relation phone prim st = (Error e, st)))"
proof -
  have a: "validatePhone ''+919876543210''" by code_simp
  have b: "validatePhone ''555-0101''" by code_simp
  have c: "\<not> validatePhone ''abc''" by code_simp
  have d: "validatePhone s \<longleftrightarrow>
      (let t = trim s;
           body = (case t of [] \<Rightarrow> [] | c # cs \<Rightarrow> if c = CHR ''+'' then cs else t)
       in 7 \<le> length body \<and> length body \<le> 20 \<and> list_all phone_class body
          \<and> 7 \<le> length (filter is_digit t) \<and> length (filter is_digit t) \<le> 15)"
    by (auto simp: validatePhone_def re_test_body Let_def)
  from a b c d validatePhone_spec_agree addContact_rejects show ?thesis by blast
qed

theorem validatePhone_amended_witness:
  "validatePhone ''(555) 123-4567'' = spec_validatePhone ''(555) 123-4567''
   \<and> spec_validatePhone ''(555) 123-4567''
   \<and> (\<exists>e. addContact 5 ''demo_patient'' ''Mary'' ''Mother'' ''abc'' False demo_store = (Error e, demo_store))"
proof -
  have t: "trim ''(555) 123-4567'' = ''(555) 123-4567''"
    by (simp add: trim_def is_space_def)
  have sp: "\<forall>c\<in>set ''(555) 123-4567''. is_space c \<longrightarrow> c = CHR '' ''"
    by (simp add: is_space_def)
  have ok: "spec_validatePhone ''(555) 123-4567''"
    by (simp add: spec_validatePhone_def spec_phone_char_def is_digit_def)
  have bad: "\<not> validatePhone ''abc''"
    by (simp add: validatePhone_def trim_def is_space_def re_test_def class_run_def)
  from t sp ok bad
    validatePhone_amended[of "''(555) 123-4567''" "''Mary''" "''abc''" 5 "''demo_patient''" "''Mother''" False demo_store]
  show ?thesis by blast
qed

section \<open>The contact directory (C7)\<close>

lemma at_most_one_nth:
  "length (filter P xs) \<le> 1 \<longleftrightarrow>
   (\<forall>i<length xs. \<forall>j<length xs. P (xs ! i) \<and> P (xs ! j) \<longrightarrow> i = j)"
proof (induction xs)
  case Nil
  then show ?case by simp
next
  case (Cons x xs)
  show ?case
  proof (cases "P x")
    case True
    have "(\<forall>i<length (x # xs). \<forall>j<length (x # xs). P ((x # xs) ! i) \<and> P ((x # xs) ! j) \<longrightarrow> i = j)
          \<longleftrightarrow> (\<forall>y\<in>set xs. \<not> P y)"
    proof
      assume h: "\<forall>i<length (x # xs). \<forall>j<length (x # xs). P ((x # xs) ! i) \<and> P ((x # xs) ! j) \<longrightarrow> i = j"
      show "\<forall>y\<in>set xs. \<not> P y"
      proof
        fix y assume "y \<in> set xs"
        then obtain k where k: "k < length xs" "xs ! k = y" by (auto simp: in_set_conv_nth)
        show "\<not> P y"
        proof
          assume "P y"
          with h[rule_format, of 0 "Suc k"] k True show False by simp
        qed
      qed
    next
      assume h: "\<forall>y\<in>set xs. \<not> P y"
      show "\<forall>i<length (x # xs). \<forall>j<length (x # xs). P ((x # xs) ! i) \<and> P ((x # xs) ! j) \<longrightarrow> i = j"
      proof (intro allI impI)
        fix i j assume "i < length (x # xs)" "j < length (x # xs)" "P ((x # xs) ! i) \<and> P ((x # xs) ! j)"
        with h show "i = j" by (cases i; cases j) auto
      qed
    qed
    moreover have "length (filter P (x # xs)) \<le> 1 \<longleftrightarrow> (\<forall>y\<in>set xs. \<not> P y)"
      using True by (simp add: filter_empty_conv)
    ultimately show ?thesis by simp
  next
    case False
    have "(\<forall>i<length (x # xs). \<forall>j<length (x # xs). P ((x # xs) ! i) \<and> P ((x # xs) ! j) \<longrightarrow> i = j)
          \<longleftrightarrow> (\<forall>i<length xs. \<forall>j<length xs. P (xs ! i) \<and> P (xs ! j) \<longrightarrow> i = j)"
    proof
      assume h: "\<forall>i<length (x # xs). \<forall>j<length (x # xs). P ((x # xs) ! i) \<and> P ((x # xs) ! j) \<longrightarrow> i = j"
      show "\<forall>i<length xs. \<forall>j<length xs. P (xs ! i) \<and> P (xs ! j) \<longrightarrow> i = j"
      proof (intro allI impI)
        fix i j assume "i < length xs" "j < length xs" "P (xs ! i) \<and> P (xs ! j)"
        with h[rule_format, of "Suc i" "Suc j"] show "i = j" by simp
      qed
    next
      assume h: "\<forall>i<length xs. \<forall>j<length xs. P (xs ! i) \<and> P (xs ! j) \<longrightarrow> i = j"
      show "\<forall>i<length (x # xs). \<forall>j<length (x # xs). P ((x # xs) ! i) \<and> P ((x # xs) ! j) \<longrightarrow> i = j"
      proof (intro allI impI)
        fix i j assume a: "i < length (x # xs)" "j < length (x # xs)" "P ((x # xs) ! i) \<and> P ((x # xs) ! j)"
        with False obtain i' j' where "i = Suc i'" "j = Suc j'" by (cases i; cases j) auto
        with a h[rule_format, of i' j'] show "i = j" by simp
      qed
    qed
    with False Cons.IH show ?thesis by simp
  qed
qed

lemma findIndex_Some:
  "findIndex P xs = Some i \<Longrightarrow> i < length xs \<and> P (xs ! i)"
  by (induction xs arbitrary: i) (auto split: if_splits option.splits)

lemma single_primary_all:
  "single_primary cs \<longleftrightarrow> (\<forall>p. length (primaries p cs) \<le> 1)"
proof
  assume h: "single_primary cs"
  show "\<forall>p. length (primaries p cs) \<le> 1"
  proof
    fix p
    show "length (primaries p cs) \<le> 1"
    proof (cases "\<exists>c\<in>set cs. c_patientId c = p")
      case True
      with h show ?thesis by (auto simp: single_primary_def list_all_iff)
    next
      case False
      then have "primaries p cs = []" by (auto simp: primaries_def filter_empty_conv)
      then show ?thesis by simp
    qed
  qed
next
  assume "\<forall>p. length (primaries p cs) \<le> 1"
  then show "single_primary cs" by (simp add: single_primary_def list_all_iff)
qed

lemma single_primary_nth:
  "single_primary cs \<longleftrightarrow>
   (\<forall>i<length cs. \<forall>j<length cs. c_isPrimary (cs ! i) \<and> c_isPrimary (cs ! j)
       \<and> c_patientId (cs ! i) = c_patientId (cs ! j) \<longrightarrow> i = j)"
  unfolding single_primary_all primaries_def at_most_one_nth by blast

lemma primaries_append: "primaries p (xs @ ys) = primaries p xs @ primaries p ys"
  by (simp add: primaries_def)

lemma primaries_single: "primaries p [b] = (if c_patientId b = p \<and> c_isPrimary b then [b] else [])"
  by (simp add: primaries_def)

lemma primaries_cleared:
  "primaries p (map (\<lambda>c. if c_patientId c = p then c\<lparr>c_isPrimary := False\<rparr> else c) cs) = []"
  by (induction cs) (auto simp: primaries_def)

lemma primaries_cleared_other:
  "q \<noteq> p \<Longrightarrow>
   primaries q (map (\<lambda>c. if c_patientId c = p then c\<lparr>c_isPrimary := False\<rparr> else c) cs) = primaries q cs"
  by (induction cs) (auto simp: primaries_def)

lemma addContact_contacts:
  "addContact now p name relation phone prim st = (Ok, st') \<Longrightarrow>
   \<exists>b. EMERGENCY_CONTACTS st' =
         (if prim then map (\<lambda>c. if c_patientId c = p then c\<lparr>c_isPrimary := False\<rparr> else c)
                          (EMERGENCY_CONTACTS st)
          else EMERGENCY_CONTACTS st) @ [b]
       \<and> c_patientId b = p \<and> c_isPrimary b = prim \<and> c_name b = trim name \<and> c_phone b = trim phone"
  by (auto simp: addContact_def uuid_def Let_def split: if_splits)

lemma addContact_rejected:
  "addContact now p name relation phone prim st = (Error e, st') \<Longrightarrow> st' = st"
  by (auto simp: addContact_def uuid_def Let_def split: if_splits)

lemma addContact_single_primary:
  assumes "single_primary (EMERGENCY_CONTACTS st)"
  shows "single_primary (EMERGENCY_CONTACTS (snd (addContact now p name relation phone prim st)))"
proof (cases "addContact now p name relation phone prim st")
  case (Pair r st')
  show ?thesis
  proof (cases r)
    case Ok
    with Pair obtain b where b: "EMERGENCY_CONTACTS st' =
         (if prim then map (\<lambda>c. if c_patientId c = p then c\<lparr>c_isPrimary := False\<rparr> else c)
                          (EMERGENCY_CONTACTS st)
          else EMERGENCY_CONTACTS st) @ [b]" "c_patientId b = p" "c_isPrimary b = prim"
      using addContact_contacts by blast
    have "length (primaries q (EMERGENCY_CONTACTS st')) \<le> 1" for q
    proof (cases prim)
      case True
      show ?thesis
      proof (cases "q = p")
        case True
        with b \<open>prim\<close> show ?thesis by (simp add: primaries_append primaries_cleared primaries_single)
      next
        case False
        with b \<open>prim\<close> assms show ?thesis
          by (simp add: primaries_append primaries_cleared_other primaries_single single_primary_all)
      qed
    next
      case False
      with b assms show ?thesis by (simp add: primaries_append primaries_single single_primary_all)
    qed
    with Pair show ?thesis by (simp add: single_primary_all)
  next
    case (Error e)
    with Pair assms addContact_rejected show ?thesis by fastforce
  qed
qed

lemma nth_clear_others:
  "i < length cs \<Longrightarrow>
   map (\<lambda>(i, c). if i \<noteq> idx \<and> c_patientId c = pid then c\<lparr>c_isPrimary := False\<rparr> else c)
       (enumerate 0 cs) ! i
   = (if i \<noteq> idx \<and> c_patientId (cs ! i) = pid then (cs ! i)\<lparr>c_isPrimary := False\<rparr> else cs ! i)"
  by (simp add: nth_enumerate_eq)

lemma merge_patientId [simp]: "c_patientId (merge_fields now c flds) = c_patientId c"
  by (simp add: merge_fields_def)

lemma merge_isPrimary:
  "c_isPrimary (merge_fields now c flds) = (case f_isPrimary flds of None \<Rightarrow> c_isPrimary c | Some v \<Rightarrow> v)"
  by (simp add: merge_fields_def)

lemma updateContact_Ok_idx:
  "updateContact now cid flds st = (Ok, st') \<Longrightarrow>
   \<exists>idx. findIndex (\<lambda>c. c_id c = cid) (EMERGENCY_CONTACTS st) = Some idx"
  by (cases "findIndex (\<lambda>c. c_id c = cid) (EMERGENCY_CONTACTS st)") (simp_all add: updateContact_def)

text \<open>What updateContact leaves in the store, position by position.\<close>

lemma updateContact_contacts:
  assumes "updateContact now cid flds st = (Ok, st')"
    and idx: "findIndex (\<lambda>c. c_id c = cid) (EMERGENCY_CONTACTS st) = Some idx"
  shows "length (EMERGENCY_CONTACTS st') = length (EMERGENCY_CONTACTS st)"
    and "i < length (EMERGENCY_CONTACTS st) \<Longrightarrow>
           c_patientId (EMERGENCY_CONTACTS st' ! i) = c_patientId (EMERGENCY_CONTACTS st ! i)"
    and "i < length (EMERGENCY_CONTACTS st) \<Longrightarrow>
           c_isPrimary (EMERGENCY_CONTACTS st' ! i) =
             (if i = idx then (case f_isPrimary flds of None \<Rightarrow> c_isPrimary (EMERGENCY_CONTACTS st ! i) | Some v \<Rightarrow> v)
              else if f_isPrimary flds = Some True
                      \<and> c_patientId (EMERGENCY_CONTACTS st ! i) = c_patientId (EMERGENCY_CONTACTS st ! idx)
                   then False else c_isPrimary (EMERGENCY_CONTACTS st ! i))"
proof -
  from idx have lt: "idx < length (EMERGENCY_CONTACTS st)" using findIndex_Some by fastforce
  have ok: "\<not> (truthy (f_phone flds) \<and> \<not> validatePhone (or_else (f_phone flds) []))"
  proof
    assume "truthy (f_phone flds) \<and> \<not> validatePhone (or_else (f_phone flds) [])"
    with assms show False by (simp add: updateContact_def)
  qed
  from assms(1) idx ok have st': "EMERGENCY_CONTACTS st' =
      (let contacts = EMERGENCY_CONTACTS st; pid = c_patientId (contacts ! idx);
           updated = (if f_isPrimary flds = Some True
                            then map (\<lambda>(i, c). if i \<noteq> idx \<and> c_patientId c = pid
                                                then c\<lparr>c_isPrimary := False\<rparr> else c)
                                     (enumerate 0 contacts)
                            else contacts)
       in updated[idx := merge_fields now (updated ! idx) flds])"
    by (auto simp: updateContact_def Let_def)
  show "length (EMERGENCY_CONTACTS st') = length (EMERGENCY_CONTACTS st)"
    by (simp add: st' Let_def)
  show "c_patientId (EMERGENCY_CONTACTS st' ! i) = c_patientId (EMERGENCY_CONTACTS st ! i)"
    if "i < length (EMERGENCY_CONTACTS st)"
    using that lt by (simp add: st' Let_def nth_list_update nth_enumerate_eq)
  show "c_isPrimary (EMERGENCY_CONTACTS st' ! i) =
             (if i = idx then (case f_isPrimary flds of None \<Rightarrow> c_isPrimary (EMERGENCY_CONTACTS st ! i) | Some v \<Rightarrow> v)
              else if f_isPrimary flds = Some True
                      \<and> c_patientId (EMERGENCY_CONTACTS st ! i) = c_patientId (EMERGENCY_CONTACTS st ! idx)
                   then False else c_isPrimary (EMERGENCY_CONTACTS st ! i))"
    if "i < length (EMERGENCY_CONTACTS st)"
    using that lt by (auto simp: st' Let_def nth_list_update nth_enumerate_eq merge_isPrimary split: option.splits)
qed

lemma updateContact_rejected:
  assumes "updateContact now cid flds st = (Error e, st')"
  shows "st' = st"
proof (cases "findIndex (\<lambda>c. c_id c = cid) (EMERGENCY_CONTACTS st)")
  case None
  with assms show ?thesis by (simp add: updateContact_def)
next
  case (Some idx)
  show ?thesis
  proof (cases "truthy (f_phone flds) \<and> \<not> validatePhone (or_else (f_phone flds) [])")
    case True
    with Some assms show ?thesis by (simp add: updateContact_def)
  next
    case False
    with Some assms show ?thesis by (simp add: updateContact_def Let_def)
  qed
qed

lemma updateContact_single_primary:
  assumes "single_primary (EMERGENCY_CONTACTS st)"
  shows "single_primary (EMERGENCY_CONTACTS (snd (updateContact now cid flds st)))"
proof (cases "updateContact now cid flds st")
  case (Pair r st')
  show ?thesis
  proof (cases r)
    case Ok
    with Pair have run: "updateContact now cid flds st = (Ok, st')" by simp
    then obtain idx where idx: "findIndex (\<lambda>c. c_id c = cid) (EMERGENCY_CONTACTS st) = Some idx"
      using updateContact_Ok_idx by blast
    note u = updateContact_contacts[OF run idx]
    let ?cs = "EMERGENCY_CONTACTS st" and ?cs' = "EMERGENCY_CONTACTS st'"
    from assms have inv: "\<forall>i<length ?cs. \<forall>j<length ?cs. c_isPrimary (?cs ! i) \<and> c_isPrimary (?cs ! j)
       \<and> c_patientId (?cs ! i) = c_patientId (?cs ! j) \<longrightarrow> i = j"
      by (simp add: single_primary_nth)
    have "i = j" if h: "i < length ?cs'" "j < length ?cs'" "c_isPrimary (?cs' ! i)" "c_isPrimary (?cs' ! j)"
       "c_patientId (?cs' ! i) = c_patientId (?cs' ! j)" for i j
    proof -
      from h u(1) have lt: "i < length ?cs" "j < length ?cs" by simp_all
      have A: "if i = idx then (case f_isPrimary flds of None \<Rightarrow> c_isPrimary (?cs ! i) | Some v \<Rightarrow> v)
              else if f_isPrimary flds = Some True \<and> c_patientId (?cs ! i) = c_patientId (?cs ! idx)
                   then False else c_isPrimary (?cs ! i)"
        using h(3) unfolding u(3)[OF lt(1)] .
      have B: "if j = idx then (case f_isPrimary flds of None \<Rightarrow> c_isPrimary (?cs ! j) | Some v \<Rightarrow> v)
              else if f_isPrimary flds = Some True \<and> c_patientId (?cs ! j) = c_patientId (?cs ! idx)
                   then False else c_isPrimary (?cs ! j)"
        using h(4) unfolding u(3)[OF lt(2)] .
      have C: "c_patientId (?cs ! i) = c_patientId (?cs ! j)"
        using h(5) unfolding u(2)[OF lt(1)] u(2)[OF lt(2)] .
      note ij = inv[rule_format, OF lt(1) lt(2)]
      define pi where "pi = c_isPrimary (?cs ! i)"
      define pj where "pj = c_isPrimary (?cs ! j)"
      define a where "a = c_patientId (?cs ! i)"
      define b where "b = c_patientId (?cs ! j)"
      define c where "c = c_patientId (?cs ! idx)"
      have ia: "i = idx \<Longrightarrow> a = c" and jb: "j = idx \<Longrightarrow> b = c"
        by (simp_all add: a_def b_def c_def)
      note A' = A[folded pi_def a_def c_def] and B' = B[folded pj_def b_def c_def]
        and C' = C[folded a_def b_def] and ij' = ij[folded pi_def pj_def a_def b_def]
      show ?thesis
      proof (cases "f_isPrimary flds")
        case None
        with A' B' have "pi" "pj" by (simp_all split: if_splits)
        with C' ij' show ?thesis by blast
      next
        case (Some v)
        show ?thesis
        proof (cases v)
          case True
          with Some A' B' have "i = idx \<or> (a \<noteq> c \<and> pi)" "j = idx \<or> (b \<noteq> c \<and> pj)"
            by (simp_all split: if_splits)
          with C' ij' ia jb show ?thesis by blast
        next
          case False
          with Some A' B' have "pi" "pj" by (simp_all split: if_splits)
          with C' ij' show ?thesis by blast
        qed
      qed
    qed
    then have "\<forall>i<length ?cs'. \<forall>j<length ?cs'. c_isPrimary (?cs' ! i) \<and> c_isPrimary (?cs' ! j)
       \<and> c_patientId (?cs' ! i) = c_patientId (?cs' ! j) \<longrightarrow> i = j" by blast
    then have "single_primary ?cs'" by (simp only: single_primary_nth)
    with Pair show ?thesis by simp
  next
    case (Error e)
    with Pair have "st' = st" using updateContact_rejected by blast
    with Pair assms show ?thesis by simp
  qed
qed


lemma addContact_primary:
  assumes "addContact now p name relation phone True st = (Ok, st')"
  shows "primaries p (EMERGENCY_CONTACTS st') = [last (EMERGENCY_CONTACTS st')]"
    and "c_name (last (EMERGENCY_CONTACTS st')) = trim name"
    and "butlast (EMERGENCY_CONTACTS st')
          = map (\<lambda>c. if c_patientId c = p then c\<lparr>c_isPrimary := False\<rparr> else c) (EMERGENCY_CONTACTS st)"
proof -
  from assms obtain b where b: "EMERGENCY_CONTACTS st' =
      map (\<lambda>c. if c_patientId c = p then c\<lparr>c_isPrimary := False\<rparr> else c) (EMERGENCY_CONTACTS st) @ [b]"
      "c_patientId b = p" "c_isPrimary b" "c_name b = trim name"
    using addContact_contacts[of now p name relation phone True st st'] by auto
  from b show "primaries p (EMERGENCY_CONTACTS st') = [last (EMERGENCY_CONTACTS st')]"
    by (simp add: primaries_append primaries_cleared primaries_single)
  from b show "c_name (last (EMERGENCY_CONTACTS st')) = trim name" by simp
  from b show "butlast (EMERGENCY_CONTACTS st')
          = map (\<lambda>c. if c_patientId c = p then c\<lparr>c_isPrimary := False\<rparr> else c) (EMERGENCY_CONTACTS st)"
    by simp
qed

lemma updateContact_primary:
  assumes run: "updateContact now cid flds st = (Ok, st')"
    and prim: "f_isPrimary flds = Some True"
    and idx: "findIndex (\<lambda>c. c_id c = cid) (EMERGENCY_CONTACTS st) = Some idx"
    and i: "i < length (EMERGENCY_CONTACTS st')"
    and same: "c_patientId (EMERGENCY_CONTACTS st' ! i) = c_patientId (EMERGENCY_CONTACTS st' ! idx)"
  shows "c_isPrimary (EMERGENCY_CONTACTS st' ! i) \<longleftrightarrow> i = idx"
proof -
  note u = updateContact_contacts[OF run idx]
  from idx have lt: "idx < length (EMERGENCY_CONTACTS st)" using findIndex_Some by fastforce
  from i u(1) have li: "i < length (EMERGENCY_CONTACTS st)" by simp
  from same have "c_patientId (EMERGENCY_CONTACTS st ! i) = c_patientId (EMERGENCY_CONTACTS st ! idx)"
    unfolding u(2)[OF li] u(2)[OF lt] .
  with prim show ?thesis unfolding u(3)[OF li] by simp
qed

text \<open>
  C7. The single-primary invariant of the contact directory is preserved by
  \<open>addContact\<close> and by \<open>updateContact\<close>, whatever they return. When \<open>addContact\<close>
  succeeds with \<open>isPrimary\<close> set, the store it writes is the old directory with
  \<open>isPrimary\<close> cleared on every contact of the patient, followed by the new contact,
  which is then the patient's only primary contact. When \<open>updateContact\<close> succeeds with
  \<open>isPrimary\<close> set, the updated contact is the only primary one among the contacts of
  its patient. Each call writes the directory once.
\<close>

theorem single_primary_invariant:
  "(single_primary (EMERGENCY_CONTACTS st) \<longrightarrow>
       single_primary (EMERGENCY_CONTACTS (snd (addContact now p name relation phone prim st)))
     \<and> single_primary (EMERGENCY_CONTACTS (snd (updateContact now cid flds st))))
   \<and> (addContact now p name relation phone True st = (Ok, st') \<longrightarrow>
        primaries p (EMERGENCY_CONTACTS st') = [last (EMERGENCY_CONTACTS st')]
        \<and> c_name (last (EMERGENCY_CONTACTS st')) = trim name
        \<and> butlast (EMERGENCY_CONTACTS st')
            = map (\<lambda>c. if c_patientId c = p then c\<lparr>c_isPrimary := False\<rparr> else c) (EMERGENCY_CONTACTS st))
   \<and> (updateContact now cid flds st = (Ok, st'') \<and> f_isPrimary flds = Some True
        \<and> findIndex (\<lambda>c. c_id c = cid) (EMERGENCY_CONTACTS st) = Some idx
        \<and> i < length (EMERGENCY_CONTACTS st'')
        \<and> c_patientId (EMERGENCY_CONTACTS st'' ! i) = c_patientId (EMERGENCY_CONTACTS st'' ! idx) \<longrightarrow>
        (c_isPrimary (EMERGENCY_CONTACTS st'' ! i) \<longleftrightarrow> i = idx))"
proof (intro conjI impI)
  assume "single_primary (EMERGENCY_CONTACTS st)"
  then show "single_primary (EMERGENCY_CONTACTS (snd (addContact now p name relation phone prim st)))"
    by (rule addContact_single_primary)
next
  assume "single_primary (EMERGENCY_CONTACTS st)"
  then show "single_primary (EMERGENCY_CONTACTS (snd (updateContact now cid flds st)))"
    by (rule updateContact_single_primary)
next
  assume a: "addContact now p name relation phone True st = (Ok, st')"
  show "primaries p (EMERGENCY_CONTACTS st') = [last (EMERGENCY_CONTACTS st')]"
    by (rule addContact_primary(1)[OF a])
  show "c_name (last (EMERGENCY_CONTACTS st')) = trim name"
    by (rule addContact_primary(2)[OF a])
  show "butlast (EMERGENCY_CONTACTS st')
          = map (\<lambda>c. if c_patientId c = p then c\<lparr>c_isPrimary := False\<rparr> else c) (EMERGENCY_CONTACTS st)"
    by (rule addContact_primary(3)[OF a])
next
  assume "updateContact now cid flds st = (Ok, st'') \<and> f_isPrimary flds = Some True
        \<and> findIndex (\<lambda>c. c_id c = cid) (EMERGENCY_CONTACTS st) = Some idx
        \<and> i < length (EMERGENCY_CONTACTS st'')
        \<and> c_patientId (EMERGENCY_CONTACTS st'' ! i) = c_patientId (EMERGENCY_CONTACTS st'' ! idx)"
  then show "c_isPrimary (EMERGENCY_CONTACTS st'' ! i) \<longleftrightarrow> i = idx"
    using updateContact_primary by blast
qed


theorem single_primary_invariant_witness:
  "single_primary (EMERGENCY_CONTACTS demo_store)
   \<and> single_primary (EMERGENCY_CONTACTS
         (snd (addContact 5 ''demo_patient'' ''Bob'' ''Brother'' ''555-0199'' True demo_store)))
   \<and> primaries ''demo_patient'' (EMERGENCY_CONTACTS
         (snd (addContact 5 ''demo_patient'' ''Bob'' ''Brother'' ''555-0199'' True demo_store)))
       = [last (EMERGENCY_CONTACTS
           (snd (addContact 5 ''demo_patient'' ''Bob'' ''Brother'' ''555-0199'' True demo_store)))]
   \<and> c_name (last (EMERGENCY_CONTACTS
         (snd (addContact 5 ''demo_patient'' ''Bob'' ''Brother'' ''555-0199'' True demo_store)))) = ''Bob''
   \<and> \<not> c_isPrimary (EMERGENCY_CONTACTS
         (snd (updateContact 5 ''ec_2''
                 \<lparr>f_name = None, f_relation = None, f_phone = None, f_isPrimary = Some True\<rparr>
                 demo_store)) ! 0)"
proof -
  let ?add = "addContact 5 ''demo_patient'' ''Bob'' ''Brother'' ''555-0199'' True demo_store"
  let ?flds = "\<lparr>f_name = None, f_relation = None, f_phone = None, f_isPrimary = Some True\<rparr>"
  let ?upd = "updateContact 5 ''ec_2'' ?flds demo_store"
  have inv: "single_primary (EMERGENCY_CONTACTS demo_store)"
    by (simp add: single_primary_def primaries_def demo_store_def)
  have phone: "validatePhone ''555-0199''"
    by (simp add: validatePhone_def trim_def is_space_def re_test_def class_run_def phone_class_def is_digit_def)
  have "fst ?add = Ok"
    using phone by (simp add: addContact_def trim_def is_space_def Let_def split_beta)
  then have add: "?add = (Ok, snd ?add)" by (metis prod.collapse)
  have idx: "findIndex (\<lambda>c. c_id c = ''ec_2'') (EMERGENCY_CONTACTS demo_store) = Some 1"
    by (simp add: demo_store_def)
  have "fst ?upd = Ok"
    by (simp add: updateContact_def idx Let_def)
  then have upd: "?upd = (Ok, snd ?upd)" by (metis prod.collapse)
  have len: "0 < length (EMERGENCY_CONTACTS (snd ?upd))"
    by (simp add: updateContact_def idx Let_def) (simp add: demo_store_def)
  have same: "c_patientId (EMERGENCY_CONTACTS (snd ?upd) ! 0) = c_patientId (EMERGENCY_CONTACTS (snd ?upd) ! 1)"
    by (simp add: updateContact_def idx Let_def) (simp add: demo_store_def merge_fields_def)
  have name: "trim ''Bob'' = ''Bob''" by (simp add: trim_def is_space_def)
  from inv add upd idx len same name
    single_primary_invariant[of demo_store 5 "''demo_patient''" "''Bob''" "''Brother''" "''555-0199''" True
      "''ec_2''" ?flds "snd ?add" "snd ?upd" 1 0]
  show ?thesis by simp
qed

section \<open>What the parts of a scan write, and what they leave alone\<close>

subsection \<open>uuid, write_log, send, dispatch: what they leave alone\<close>

lemma uuid_fields [simp]:
  "USERS (snd (uuid st)) = USERS st"
  "MEDICATIONS (snd (uuid st)) = MEDICATIONS st"
  "DOSES (snd (uuid st)) = DOSES st"
  "EMERGENCY_CONTACTS (snd (uuid st)) = EMERGENCY_CONTACTS st"
  "NOTIFICATIONS (snd (uuid st)) = NOTIFICATIONS st"
  "undefined_key (snd (uuid st)) = undefined_key st"
  "sms_mode (snd (uuid st)) = sms_mode st"
  "sms_config (snd (uuid st)) = sms_config st"
  "microtasks (snd (uuid st)) = microtasks st"
  "in_flight (snd (uuid st)) = in_flight st"
  "gateway_calls (snd (uuid st)) = gateway_calls st"
  by (simp_all add: uuid_def)

lemma write_log_fields [simp]:
  "USERS (snd (write_log to body meta result clock st)) = USERS st"
  "MEDICATIONS (snd (write_log to body meta result clock st)) = MEDICATIONS st"
  "DOSES (snd (write_log to body meta result clock st)) = DOSES st"
  "EMERGENCY_CONTACTS (snd (write_log to body meta result clock st)) = EMERGENCY_CONTACTS st"
  "NOTIFICATIONS (snd (write_log to body meta result clock st)) = NOTIFICATIONS st"
  "sms_mode (snd (write_log to body meta result clock st)) = sms_mode st"
  "sms_config (snd (write_log to body meta result clock st)) = sms_config st"
  "microtasks (snd (write_log to body meta result clock st)) = microtasks st"
  "in_flight (snd (write_log to body meta result clock st)) = in_flight st"
  "gateway_calls (snd (write_log to body meta result clock st)) = gateway_calls st"
  by (simp_all add: write_log_def uuid_def split: option.splits)

text \<open>An audit entry never makes a caregiver id readable, and never hides one.\<close>

lemma assigned_id_array [simp]:
  "stored_logs s = Some logs \<Longrightarrow> assigned_id q s = None"
  by (cases s) simp_all

lemma write_log_assigned [simp]:
  "assigned_id q (undefined_key (snd (write_log to body meta result clock st)))
     = assigned_id q (undefined_key st)"
  by (cases "undefined_key st") (simp_all add: write_log_def uuid_def)

text \<open>The two outcomes of the audit write.\<close>

lemma write_log_object:
  "stored_logs (undefined_key st) = None \<Longrightarrow>
   write_log to body meta result clock st
     = (Inl ''TypeError: logs.unshift is not a function'', snd (uuid st))"
  by (simp add: write_log_def uuid_def)

lemma write_log_array:
  assumes "stored_logs (undefined_key st) = Some logs"
  shows "\<exists>e. write_log to body meta result clock st
          = (Inr (), (snd (uuid st))\<lparr>undefined_key := JsonArray (e # logs)\<rparr>)
      \<and> l_deliveryStatus e = r_status result \<and> l_provider e = r_provider result
      \<and> l_contactPhone e = to \<and> l_smsMessage e = body \<and> l_acknowledgedAt e = None
      \<and> l_triggeredAt e = clock"
proof -
  let ?e = "\<lparr>l_id = fst (uuid st),
             l_patientId = or_else (meta_patientId meta) [],
             l_doseId = or_else (meta_doseId meta) [],
             l_medName = or_else (meta_medName meta) [],
             l_medDosage = or_else (meta_medDosage meta) [],
             l_scheduledTime = meta_scheduledTime meta,
             l_contactId = or_else (meta_contactId meta) [],
             l_contactName = or_else (meta_contactName meta) [],
             l_contactPhone = to,
             l_contactRole = or_else (meta_contactRole meta) [],
             l_type = or_else (meta_type meta) ''emergency_contact'',
             l_smsMessage = body,
             l_deliveryStatus = r_status result,
             l_provider = r_provider result,
             l_triggeredAt = clock,
             l_acknowledgedAt = None\<rparr>"
  from assms have "write_log to body meta result clock st
          = (Inr (), (snd (uuid st))\<lparr>undefined_key := JsonArray (?e # logs)\<rparr>)"
    by (simp add: write_log_def split_beta Let_def)
  then show ?thesis by (intro exI[of _ ?e]) simp
qed

lemma send_store:
  "snd (send mode config to body meta tr clock st)
     = snd (write_log to body meta
              (case try_block mode config (initial_result mode) tr of
                 Inr r \<Rightarrow> r
               | Inl err \<Rightarrow> \<lparr>r_ok = False, r_status = FAILED, r_provider = sms_mode st,
                              r_httpStatus = None, r_error = Some err\<rparr>)
              clock st)"
  by (simp add: send_def Let_def split_beta split: sum.splits)

lemma send_fields [simp]:
  "USERS (snd (send mode config to body meta tr clock st)) = USERS st"
  "MEDICATIONS (snd (send mode config to body meta tr clock st)) = MEDICATIONS st"
  "DOSES (snd (send mode config to body meta tr clock st)) = DOSES st"
  "EMERGENCY_CONTACTS (snd (send mode config to body meta tr clock st)) = EMERGENCY_CONTACTS st"
  "NOTIFICATIONS (snd (send mode config to body meta tr clock st)) = NOTIFICATIONS st"
  "sms_mode (snd (send mode config to body meta tr clock st)) = sms_mode st"
  "sms_config (snd (send mode config to body meta tr clock st)) = sms_config st"
  "microtasks (snd (send mode config to body meta tr clock st)) = microtasks st"
  "in_flight (snd (send mode config to body meta tr clock st)) = in_flight st"
  "gateway_calls (snd (send mode config to body meta tr clock st)) = gateway_calls st"
  "assigned_id q (undefined_key (snd (send mode config to body meta tr clock st)))
     = assigned_id q (undefined_key st)"
  unfolding send_store by simp_all

lemma send_object:
  "stored_logs (undefined_key st) = None \<Longrightarrow>
   send mode config to body meta tr clock st
     = (Inl ''TypeError: logs.unshift is not a function'', snd (uuid st))"
  by (simp add: send_def Let_def write_log_object)

lemma dispatch_fields [simp]:
  "USERS (dispatch to body meta cb clock st) = USERS st"
  "MEDICATIONS (dispatch to body meta cb clock st) = MEDICATIONS st"
  "DOSES (dispatch to body meta cb clock st) = DOSES st"
  "EMERGENCY_CONTACTS (dispatch to body meta cb clock st) = EMERGENCY_CONTACTS st"
  "NOTIFICATIONS (dispatch to body meta cb clock st) = NOTIFICATIONS st"
  "sms_mode (dispatch to body meta cb clock st) = sms_mode st"
  "sms_config (dispatch to body meta cb clock st) = sms_config st"
  "assigned_id q (undefined_key (dispatch to body meta cb clock st)) = assigned_id q (undefined_key st)"
  by (simp_all add: dispatch_def Let_def split_beta split: option.splits sum.splits)

text \<open>Every call is one more entry of the trace, whatever becomes of it.\<close>

lemma dispatch_calls [simp]:
  "gateway_calls (dispatch to body meta cb clock st) = gateway_calls st @ [to]"
  by (simp add: dispatch_def Let_def split_beta split: option.splits sum.splits)

text \<open>
  While the shared entry holds the caregiver object, a call leaves it as it is and
  queues no callback: either the call is suspended, or its promise is rejected.
\<close>

lemma dispatch_object:
  assumes "stored_logs (undefined_key st) = None"
  shows "undefined_key (dispatch to body meta cb clock st) = undefined_key st"
    and "microtasks (dispatch to body meta cb clock st) = microtasks st"
proof -
  let ?st0 = "st\<lparr>gateway_calls := gateway_calls st @ [to]\<rparr>"
  from assms have o: "stored_logs (undefined_key ?st0) = None" by simp
  show "undefined_key (dispatch to body meta cb clock st) = undefined_key st"
    by (simp add: dispatch_def Let_def send_object[OF o])
  show "microtasks (dispatch to body meta cb clock st) = microtasks st"
    by (simp add: dispatch_def Let_def send_object[OF o])
qed

lemma dispatch_in_flight:
  "length (in_flight (dispatch to body meta cb clock st)) =
     (if suspends (sms_mode st) (sms_config st) then Suc (length (in_flight st)) else length (in_flight st))"
  by (simp add: dispatch_def Let_def split_beta split: option.splits sum.splits)


subsection \<open>The alert cycle\<close>

lemma sms_contacts_fields [simp]:
  "USERS (snd (sms_contacts now p dose med body cs st)) = USERS st"
  "MEDICATIONS (snd (sms_contacts now p dose med body cs st)) = MEDICATIONS st"
  "DOSES (snd (sms_contacts now p dose med body cs st)) = DOSES st"
  "EMERGENCY_CONTACTS (snd (sms_contacts now p dose med body cs st)) = EMERGENCY_CONTACTS st"
  "NOTIFICATIONS (snd (sms_contacts now p dose med body cs st)) = NOTIFICATIONS st"
  "sms_mode (snd (sms_contacts now p dose med body cs st)) = sms_mode st"
  "sms_config (snd (sms_contacts now p dose med body cs st)) = sms_config st"
  "assigned_id q (undefined_key (snd (sms_contacts now p dose med body cs st)))
     = assigned_id q (undefined_key st)"
  by (induction cs arbitrary: st; simp add: Let_def split_beta)+

lemma sms_contacts_sig:
  "map sig (fst (sms_contacts now p dose med body cs st))
     = replicate (length cs) (SMS_SENT, Some (d_id dose), p)"
  by (induction cs arbitrary: st) (simp_all add: Let_def split_beta sig_def)

lemma sms_contacts_calls:
  "gateway_calls (snd (sms_contacts now p dose med body cs st)) = gateway_calls st @ map c_phone cs"
  by (induction cs arbitrary: st) (simp_all add: Let_def split_beta)

lemma sms_contacts_object:
  "stored_logs (undefined_key st) = None \<Longrightarrow>
   undefined_key (snd (sms_contacts now p dose med body cs st)) = undefined_key st
   \<and> microtasks (snd (sms_contacts now p dose med body cs st)) = microtasks st"
proof (induction cs arbitrary: st)
  case Nil
  then show ?case by simp
next
  case (Cons c cs)
  let ?st1 = "dispatch (c_phone c) body
                  \<lparr>meta_patientId = Some p, meta_doseId = Some (d_id dose),
                   meta_medName = Some (m_name med), meta_medDosage = Some (m_dosage med),
                   meta_scheduledTime = d_scheduledTime dose,
                   meta_contactId = Some (c_id c), meta_contactName = Some (c_name c),
                   meta_contactRole = Some (or_else (Some (c_relation c)) ''Emergency Contact''),
                   meta_type = Some ''emergency_contact''\<rparr>
                  (Some (c_id c, now)) now st"
  let ?st2 = "snd (uuid ?st1)"
  have s: "snd (sms_contacts now p dose med body (c # cs) st) = snd (sms_contacts now p dose med body cs ?st2)"
    by (simp add: Let_def split_beta)
  have k: "undefined_key ?st2 = undefined_key st" "microtasks ?st2 = microtasks st"
    using dispatch_object[OF Cons.prems] by simp_all
  from Cons.prems k have "stored_logs (undefined_key ?st2) = None" by simp
  from Cons.IH[OF this] show ?case unfolding s k .
qed

lemma sms_contacts_in_flight:
  "length (in_flight (snd (sms_contacts now p dose med body cs st))) =
     (if suspends (sms_mode st) (sms_config st) then length (in_flight st) + length cs
      else length (in_flight st))"
  by (induction cs arbitrary: st) (simp_all add: Let_def split_beta dispatch_in_flight)

lemma caregiver_alert_fields [simp]:
  "USERS (snd (caregiver_alert now p dose med body cg st)) = USERS st"
  "MEDICATIONS (snd (caregiver_alert now p dose med body cg st)) = MEDICATIONS st"
  "DOSES (snd (caregiver_alert now p dose med body cg st)) = DOSES st"
  "EMERGENCY_CONTACTS (snd (caregiver_alert now p dose med body cg st)) = EMERGENCY_CONTACTS st"
  "NOTIFICATIONS (snd (caregiver_alert now p dose med body cg st)) = NOTIFICATIONS st"
  "sms_mode (snd (caregiver_alert now p dose med body cg st)) = sms_mode st"
  "sms_config (snd (caregiver_alert now p dose med body cg st)) = sms_config st"
  "assigned_id q (undefined_key (snd (caregiver_alert now p dose med body cg st)))
     = assigned_id q (undefined_key st)"
  by (simp_all add: caregiver_alert_def Let_def split_beta split: option.splits)

lemma caregiver_alert_sig:
  "map sig (fst (caregiver_alert now p dose med body cg st))
     = (case cg of None \<Rightarrow> [] | Some x \<Rightarrow> [(CAREGIVER_ALERT, Some (d_id dose), p)])"
  by (simp add: caregiver_alert_def Let_def split_beta sig_def split: option.splits)

lemma caregiver_alert_calls:
  "gateway_calls (snd (caregiver_alert now p dose med body cg st))
     = gateway_calls st @ (case cg of None \<Rightarrow> [] | Some x \<Rightarrow> [or_else (u_phone (snd x)) (u_email (snd x))])"
  by (simp add: caregiver_alert_def Let_def split_beta split: option.splits)

lemma caregiver_alert_object:
  "stored_logs (undefined_key st) = None \<Longrightarrow>
   undefined_key (snd (caregiver_alert now p dose med body cg st)) = undefined_key st
   \<and> microtasks (snd (caregiver_alert now p dose med body cg st)) = microtasks st"
  by (cases cg) (simp_all add: caregiver_alert_def Let_def split_beta dispatch_object)

lemma caregiver_alert_in_flight:
  "length (in_flight (snd (caregiver_alert now p dose med body cg st))) =
     (if suspends (sms_mode st) (sms_config st) \<and> cg \<noteq> None
      then Suc (length (in_flight st)) else length (in_flight st))"
  by (simp_all add: caregiver_alert_def Let_def split_beta dispatch_in_flight split: option.splits)

lemma alert_cycle_fields [simp]:
  "USERS (alert_cycle now p pat cs cg dose due med st) = USERS st"
  "MEDICATIONS (alert_cycle now p pat cs cg dose due med st) = MEDICATIONS st"
  "DOSES (alert_cycle now p pat cs cg dose due med st) = DOSES st"
  "EMERGENCY_CONTACTS (alert_cycle now p pat cs cg dose due med st) = EMERGENCY_CONTACTS st"
  "sms_mode (alert_cycle now p pat cs cg dose due med st) = sms_mode st"
  "sms_config (alert_cycle now p pat cs cg dose due med st) = sms_config st"
  "assigned_id q (undefined_key (alert_cycle now p pat cs cg dose due med st))
     = assigned_id q (undefined_key st)"
  by (simp_all add: alert_cycle_def Let_def split_beta)

lemma alert_cycle_notifications:
  "\<exists>added. NOTIFICATIONS (alert_cycle now p pat cs cg dose due med st) = NOTIFICATIONS st @ added
      \<and> map sig added = cycle_sigs p cs cg dose"
  by (simp add: alert_cycle_def Let_def split_beta cycle_sigs_def sms_contacts_sig caregiver_alert_sig)
     (simp add: sig_def)

lemma alert_cycle_calls:
  "gateway_calls (alert_cycle now p pat cs cg dose due med st) = gateway_calls st @ recipients cs cg"
  by (simp add: alert_cycle_def Let_def split_beta recipients_def sms_contacts_calls caregiver_alert_calls)

lemma alert_cycle_object:
  assumes "stored_logs (undefined_key st) = None"
  shows "undefined_key (alert_cycle now p pat cs cg dose due med st) = undefined_key st
         \<and> microtasks (alert_cycle now p pat cs cg dose due med st) = microtasks st"
proof -
  let ?body = "SMS_TEMPLATE (u_name pat) (m_name med) (m_dosage med) due"
  let ?st1 = "snd (uuid st)"
  let ?st2 = "snd (sms_contacts now p dose med ?body cs ?st1)"
  let ?st3 = "snd (caregiver_alert now p dose med ?body cg ?st2)"
  from assms have o1: "stored_logs (undefined_key ?st1) = None" by simp
  note k2 = sms_contacts_object[OF o1, of now p dose med ?body cs]
  from k2 assms have o2: "stored_logs (undefined_key ?st2) = None" by simp
  note k3 = caregiver_alert_object[OF o2, of now p dose med ?body cg]
  have "undefined_key (alert_cycle now p pat cs cg dose due med st) = undefined_key ?st3"
       "microtasks (alert_cycle now p pat cs cg dose due med st) = microtasks ?st3"
    by (simp_all add: alert_cycle_def Let_def split_beta)
  with k2 k3 show ?thesis by simp
qed

lemma alert_cycle_in_flight:
  "length (in_flight (alert_cycle now p pat cs cg dose due med st)) =
     (if suspends (sms_mode st) (sms_config st) then length (in_flight st) + fan_out cs cg
      else length (in_flight st))"
  by (simp add: alert_cycle_def Let_def split_beta fan_out_def sms_contacts_in_flight caregiver_alert_in_flight
        split: option.splits)




subsection \<open>The loop\<close>

lemma scan_dose_skip:
  "\<not> fires now meds already d \<Longrightarrow> scan_dose now p pat cs cg meds already acc d = acc"
  by (auto simp: scan_dose_def fires_def Let_def split: option.splits)

lemma scan_dose_fire:
  "fires now meds already d \<Longrightarrow>
   \<exists>due med. scan_dose now p pat cs cg meds already acc d
       = (Suc (fst acc), alert_cycle now p pat cs cg d due med (snd acc))"
  by (auto simp: scan_dose_def fires_def Let_def split: option.splits)

lemma scan_fold_count:
  "fst (foldl (scan_dose now p pat cs cg meds already) acc ds)
     = fst acc + length (filter (fires now meds already) ds)"
proof (induction ds arbitrary: acc)
  case Nil
  then show ?case by simp
next
  case (Cons d ds)
  show ?case
  proof (cases "fires now meds already d")
    case True
    then obtain due med where "scan_dose now p pat cs cg meds already acc d
       = (Suc (fst acc), alert_cycle now p pat cs cg d due med (snd acc))"
      using scan_dose_fire by blast
    with True Cons.IH show ?thesis by simp
  next
    case False
    with Cons.IH show ?thesis by (simp add: scan_dose_skip)
  qed
qed

lemma scan_fold_fields:
  "USERS (snd (foldl (scan_dose now p pat cs cg meds already) acc ds)) = USERS (snd acc)
   \<and> MEDICATIONS (snd (foldl (scan_dose now p pat cs cg meds already) acc ds)) = MEDICATIONS (snd acc)
   \<and> DOSES (snd (foldl (scan_dose now p pat cs cg meds already) acc ds)) = DOSES (snd acc)
   \<and> EMERGENCY_CONTACTS (snd (foldl (scan_dose now p pat cs cg meds already) acc ds)) = EMERGENCY_CONTACTS (snd acc)
   \<and> assigned_id q (undefined_key (snd (foldl (scan_dose now p pat cs cg meds already) acc ds)))
       = assigned_id q (undefined_key (snd acc))
   \<and> sms_mode (snd (foldl (scan_dose now p pat cs cg meds already) acc ds)) = sms_mode (snd acc)
   \<and> sms_config (snd (foldl (scan_dose now p pat cs cg meds already) acc ds)) = sms_config (snd acc)"
proof (induction ds arbitrary: acc)
  case Nil
  then show ?case by simp
next
  case (Cons d ds)
  show ?case
  proof (cases "fires now meds already d")
    case True
    then obtain due med where "scan_dose now p pat cs cg meds already acc d
       = (Suc (fst acc), alert_cycle now p pat cs cg d due med (snd acc))"
      using scan_dose_fire by blast
    with Cons.IH[of "scan_dose now p pat cs cg meds already acc d"] show ?thesis by simp
  next
    case False
    with Cons.IH[of acc] show ?thesis by (simp add: scan_dose_skip)
  qed
qed

lemma scan_fold_notifications:
  "\<exists>added. NOTIFICATIONS (snd (foldl (scan_dose now p pat cs cg meds already) acc ds))
        = NOTIFICATIONS (snd acc) @ added
      \<and> map sig added = concat (map (cycle_sigs p cs cg) (filter (fires now meds already) ds))"
proof (induction ds arbitrary: acc)
  case Nil
  then show ?case by simp
next
  case (Cons d ds)
  let ?step = "scan_dose now p pat cs cg meds already acc d"
  obtain rest where rest: "NOTIFICATIONS (snd (foldl (scan_dose now p pat cs cg meds already) ?step ds))
        = NOTIFICATIONS (snd ?step) @ rest"
      "map sig rest = concat (map (cycle_sigs p cs cg) (filter (fires now meds already) ds))"
    using Cons.IH by blast
  show ?case
  proof (cases "fires now meds already d")
    case True
    then obtain due med where step: "?step = (Suc (fst acc), alert_cycle now p pat cs cg d due med (snd acc))"
      using scan_dose_fire by blast
    obtain first where first: "NOTIFICATIONS (alert_cycle now p pat cs cg d due med (snd acc))
         = NOTIFICATIONS (snd acc) @ first" "map sig first = cycle_sigs p cs cg d"
      using alert_cycle_notifications by blast
    from rest step first True
    have "NOTIFICATIONS (snd (foldl (scan_dose now p pat cs cg meds already) acc (d # ds)))
            = NOTIFICATIONS (snd acc) @ (first @ rest)
          \<and> map sig (first @ rest)
            = concat (map (cycle_sigs p cs cg) (filter (fires now meds already) (d # ds)))"
      by simp
    then show ?thesis by blast
  next
    case False
    with rest show ?thesis by (simp add: scan_dose_skip)
  qed
qed

text \<open>The trace of a scan: the recipients of one alert cycle, once for every dose that fires.\<close>

lemma scan_fold_calls:
  "gateway_calls (snd (foldl (scan_dose now p pat cs cg meds already) acc ds))
     = gateway_calls (snd acc)
       @ concat (replicate (length (filter (fires now meds already) ds)) (recipients cs cg))"
proof (induction ds arbitrary: acc)
  case Nil
  then show ?case by simp
next
  case (Cons d ds)
  show ?case
  proof (cases "fires now meds already d")
    case True
    then obtain due med where "scan_dose now p pat cs cg meds already acc d
       = (Suc (fst acc), alert_cycle now p pat cs cg d due med (snd acc))"
      using scan_dose_fire by blast
    with True Cons.IH[of "scan_dose now p pat cs cg meds already acc d"] show ?thesis
      by (simp add: alert_cycle_calls)
  next
    case False
    with Cons.IH[of acc] show ?thesis by (simp add: scan_dose_skip)
  qed
qed

lemma scan_fold_object:
  "stored_logs (undefined_key (snd acc)) = None \<Longrightarrow>
   undefined_key (snd (foldl (scan_dose now p pat cs cg meds already) acc ds)) = undefined_key (snd acc)
   \<and> microtasks (snd (foldl (scan_dose now p pat cs cg meds already) acc ds)) = microtasks (snd acc)"
proof (induction ds arbitrary: acc)
  case Nil
  then show ?case by simp
next
  case (Cons d ds)
  let ?step = "scan_dose now p pat cs cg meds already acc d"
  have k: "undefined_key (snd ?step) = undefined_key (snd acc) \<and> microtasks (snd ?step) = microtasks (snd acc)"
  proof (cases "fires now meds already d")
    case True
    then obtain due med where "?step = (Suc (fst acc), alert_cycle now p pat cs cg d due med (snd acc))"
      using scan_dose_fire by blast
    then show ?thesis using alert_cycle_object[OF Cons.prems, of now p pat cs cg d due med] by simp
  next
    case False
    then show ?thesis by (simp add: scan_dose_skip)
  qed
  with Cons.prems have "stored_logs (undefined_key (snd ?step)) = None" by simp
  from Cons.IH[OF this] k show ?case by simp
qed

lemma scan_fold_in_flight:
  "length (in_flight (snd (foldl (scan_dose now p pat cs cg meds already) acc ds)))
     = length (in_flight (snd acc))
       + (if suspends (sms_mode (snd acc)) (sms_config (snd acc))
          then fan_out cs cg * length (filter (fires now meds already) ds) else 0)"
proof (induction ds arbitrary: acc)
  case Nil
  then show ?case by simp
next
  case (Cons d ds)
  show ?case
  proof (cases "fires now meds already d")
    case True
    then obtain due med where "scan_dose now p pat cs cg meds already acc d
       = (Suc (fst acc), alert_cycle now p pat cs cg d due med (snd acc))"
      using scan_dose_fire by blast
    with True Cons.IH[of "scan_dose now p pat cs cg meds already acc d"] show ?thesis
      by (simp add: alert_cycle_in_flight)
  next
    case False
    with Cons.IH[of acc] show ?thesis by (simp add: scan_dose_skip)
  qed
qed

section \<open>The gateway (C6)\<close>

lemma try_block_simulation:
  "try_block ''simulation'' config pending tr
     = Inr \<lparr>r_ok = True, r_status = SIMULATED, r_provider = ''simulation'',
            r_httpStatus = None, r_error = None\<rparr>"
  by (simp add: try_block_def)

lemma try_block_network_error:
  "mode = ''twilio'' \<or> mode = ''fast2sms'' \<Longrightarrow> before_await mode config = None \<Longrightarrow>
   try_block mode config pending (Failure msg) = Inl msg"
  by (auto simp: try_block_def)

lemma try_block_parse_error:
  "before_await ''fast2sms'' config = None \<Longrightarrow>
   try_block ''fast2sms'' config pending (Response ok code None) = Inl ''Unexpected token in JSON''"
  by (simp add: try_block_def)

lemma try_block_before_await:
  "before_await mode config = Some err \<Longrightarrow> try_block mode config pending tr = Inl err"
  by (auto simp: try_block_def before_await_def split: if_splits)

text \<open>
  What \<open>send\<close> does while the shared entry is readable as an array, that is on a
  storage where no caregiver was ever assigned: the promise is resolved, one entry is
  put in front of the audit trail with the status and the provider of the result, an
  exception of the \<open>try\<close> block is the result \<open>failed\<close>, and the simulation mode
  gives \<open>ok\<close> and \<open>simulated\<close>.
\<close>

lemma send_array:
  assumes "stored_logs (undefined_key st) = Some logs"
  shows "\<exists>r e. fst (send mode config to body meta tr clock st) = Inr r
      \<and> undefined_key (snd (send mode config to body meta tr clock st)) = JsonArray (e # logs)
      \<and> l_deliveryStatus e = r_status r \<and> l_provider e = r_provider r
      \<and> l_contactPhone e = to \<and> l_smsMessage e = body \<and> l_acknowledgedAt e = None
      \<and> (case try_block mode config (initial_result mode) tr of
            Inl err \<Rightarrow> \<not> r_ok r \<and> r_status r = FAILED \<and> r_error r = Some err
          | Inr r' \<Rightarrow> r = r')
      \<and> (mode = ''simulation'' \<longrightarrow> r_ok r \<and> r_status r = SIMULATED)"
proof -
  let ?r = "case try_block mode config (initial_result mode) tr of
              Inr r \<Rightarrow> r
            | Inl err \<Rightarrow> \<lparr>r_ok = False, r_status = FAILED, r_provider = sms_mode st,
                           r_httpStatus = None, r_error = Some err\<rparr>"
  from write_log_array[OF assms, of to body meta ?r clock]
  obtain e where e: "write_log to body meta ?r clock st
          = (Inr (), (snd (uuid st))\<lparr>undefined_key := JsonArray (e # logs)\<rparr>)"
      "l_deliveryStatus e = r_status ?r" "l_provider e = r_provider ?r"
      "l_contactPhone e = to" "l_smsMessage e = body" "l_acknowledgedAt e = None"
    by blast
  have s: "send mode config to body meta tr clock st
             = (Inr ?r, (snd (uuid st))\<lparr>undefined_key := JsonArray (e # logs)\<rparr>)"
    by (simp add: send_def Let_def e(1))
  have c: "case try_block mode config (initial_result mode) tr of
            Inl err \<Rightarrow> \<not> r_ok ?r \<and> r_status ?r = FAILED \<and> r_error ?r = Some err
          | Inr r' \<Rightarrow> ?r = r'"
    by (simp split: sum.splits)
  have m: "mode = ''simulation'' \<longrightarrow> r_ok ?r \<and> r_status ?r = SIMULATED"
    by (simp add: try_block_simulation)
  from s e(2-6) c m show ?thesis by simp
qed

text \<open>
  C6. The claim is what the gateway promises in its own header
  (\<open>SMSGateway.send(phone, message)\<close> writes to \<open>ah_alert_logs\<close>), and the code does
  not keep it: \<open>AH.KEYS\<close> has no entry \<open>ALERT_LOGS\<close> and no entry
  \<open>CAREGIVER_ASSIGNMENT\<close>, so the audit trail and the caregiver assignment are one
  \<open>localStorage\<close> entry. On the storage that \<open>assignCaregiver\<close> has written, here
  the demo store, \<open>getItem\<close> returns the caregiver object, \<open>logs.unshift\<close> throws
  after the \<open>catch\<close>, and the promise of \<open>send\<close> is rejected: no audit entry is
  written and the exception reaches the caller. This holds in simulation mode, where
  the claim promises \<open>ok\<close> and \<open>simulated\<close>, and in a network mode whatever the
  network does.
\<close>

theorem send_rejects_without_row:
  "assignCaregiver ''demo_patient'' (Some ''demo_caregiver'') (demo_store\<lparr>undefined_key := Missing\<rparr>)
     = demo_store
   \<and> fst (send ''simulation'' (sms_config demo_store) ''+1-555-0101''
             (SMS_TEMPLATE ''Alex Johnson'' ''Metformin'' ''500mg'' 0)
             \<lparr>meta_patientId = Some ''demo_patient'', meta_doseId = Some ''dose_1'', meta_medName = None,
              meta_medDosage = None, meta_scheduledTime = None, meta_contactId = None,
              meta_contactName = None, meta_contactRole = None, meta_type = None\<rparr>
             (Failure []) 7 demo_store)
       = Inl ''TypeError: logs.unshift is not a function''
   \<and> audit_rows (snd (send ''simulation'' (sms_config demo_store) ''+1-555-0101''
             (SMS_TEMPLATE ''Alex Johnson'' ''Metformin'' ''500mg'' 0)
             \<lparr>meta_patientId = Some ''demo_patient'', meta_doseId = Some ''dose_1'', meta_medName = None,
              meta_medDosage = None, meta_scheduledTime = None, meta_contactId = None,
              meta_contactName = None, meta_contactRole = None, meta_type = None\<rparr>
             (Failure []) 7 demo_store))
       = []
   \<and> undefined_key (snd (send ''simulation'' (sms_config demo_store) ''+1-555-0101''
             (SMS_TEMPLATE ''Alex Johnson'' ''Metformin'' ''500mg'' 0)
             \<lparr>meta_patientId = Some ''demo_patient'', meta_doseId = Some ''dose_1'', meta_medName = None,
              meta_medDosage = None, meta_scheduledTime = None, meta_contactId = None,
              meta_contactName = None, meta_contactRole = None, meta_type = None\<rparr>
             (Failure []) 7 demo_store))
       = JsonObject [(''demo_patient'', ''demo_caregiver'')]
   \<and> fst (send mode config to body meta tr clock demo_store)
       = Inl ''TypeError: logs.unshift is not a function''
   \<and> audit_rows (snd (send mode config to body meta tr clock demo_store)) = []"
proof -
  have slot: "undefined_key demo_store = JsonObject [(''demo_patient'', ''demo_caregiver'')]"
    by (simp add: demo_store_def)
  then have o: "stored_logs (undefined_key demo_store) = None" by simp
  have "assignCaregiver ''demo_patient'' (Some ''demo_caregiver'') (demo_store\<lparr>undefined_key := Missing\<rparr>)
          = demo_store\<lparr>undefined_key := undefined_key demo_store\<rparr>"
    unfolding slot by (simp add: assignCaregiver_def)
  then have a: "assignCaregiver ''demo_patient'' (Some ''demo_caregiver'')
                  (demo_store\<lparr>undefined_key := Missing\<rparr>) = demo_store"
    by simp
  have r: "audit_rows (snd (uuid demo_store)) = []"
    by (simp add: audit_rows_def o)
  have k: "undefined_key (snd (uuid demo_store)) = JsonObject [(''demo_patient'', ''demo_caregiver'')]"
    by (simp add: slot)
  show ?thesis
    unfolding send_object[OF o] fst_conv snd_conv
    by (intro conjI a r k refl)
qed

subsection \<open>Suspended sends\<close>

lemma notify_contact_fields [simp]:
  "undefined_key (notify_contact t st) = undefined_key st"
  "in_flight (notify_contact t st) = in_flight st"
  "NOTIFICATIONS (notify_contact t st) = NOTIFICATIONS st"
  "gateway_calls (notify_contact t st) = gateway_calls st"
  by (simp_all add: notify_contact_def Let_def split: option.splits)

text \<open>
  A suspended send that settles while the shared entry holds the caregiver object
  writes nothing either, whatever the network did.
\<close>

lemma settle_object:
  "stored_logs (undefined_key st) = None \<Longrightarrow> undefined_key (settle i tr clock st) = undefined_key st"
proof (cases "i < length (in_flight st)")
  case True
  assume o: "stored_logs (undefined_key st) = None"
  let ?st1 = "st\<lparr>in_flight := take i (in_flight st) @ drop (Suc i) (in_flight st)\<rparr>"
  from o have o1: "stored_logs (undefined_key ?st1) = None" by simp
  show ?thesis
    using True by (simp add: settle_def Let_def send_object[OF o1])
next
  case False
  then show ?thesis by (simp add: settle_def)
qed

lemma settle_all_object:
  "stored_logs (undefined_key st) = None \<Longrightarrow>
   undefined_key (settle_all sched clock st) = undefined_key st"
  unfolding settle_all_def
proof (induction sched arbitrary: st)
  case Nil
  then show ?case by simp
next
  case (Cons a sched)
  obtain i tr where a: "a = (i, tr)" by (cases a)
  have k: "undefined_key (settle i tr clock st) = undefined_key st"
    by (rule settle_object[OF Cons.prems])
  with Cons.prems have "stored_logs (undefined_key (settle i tr clock st)) = None" by simp
  from Cons.IH[OF this] k show ?case by (simp add: a)
qed

text \<open>A suspended send that settles on a readable audit trail writes its entry.\<close>

lemma settle_array:
  assumes "i < length (in_flight st)" and "stored_logs (undefined_key st) = Some logs"
  shows "\<exists>e. undefined_key (settle i tr clock st) = JsonArray (e # logs)"
    and "length (in_flight (settle i tr clock st)) = length (in_flight st) - 1"
proof -
  let ?p = "in_flight st ! i"
  let ?st1 = "st\<lparr>in_flight := take i (in_flight st) @ drop (Suc i) (in_flight st)\<rparr>"
  from assms(2) have o1: "stored_logs (undefined_key ?st1) = Some logs" by simp
  from send_array[OF o1, of "fl_mode ?p" "fl_config ?p" "fl_to ?p" "fl_body ?p" "fl_meta ?p" tr clock]
  obtain r e where s: "fst (send (fl_mode ?p) (fl_config ?p) (fl_to ?p) (fl_body ?p) (fl_meta ?p) tr clock ?st1) = Inr r"
      "undefined_key (snd (send (fl_mode ?p) (fl_config ?p) (fl_to ?p) (fl_body ?p) (fl_meta ?p) tr clock ?st1))
         = JsonArray (e # logs)"
    by blast
  from assms(1) s show "\<exists>e. undefined_key (settle i tr clock st) = JsonArray (e # logs)"
    by (simp add: settle_def Let_def split_beta split: option.splits)
  from assms(1) s(1) show "length (in_flight (settle i tr clock st)) = length (in_flight st) - 1"
    by (simp add: settle_def Let_def split_beta split: option.splits)
qed

section \<open>The v3 scan\<close>

subsection \<open>The whole scan\<close>

lemma scan_caregiver_None:
  "(scan_caregiver p st = None) = (getAssignedCaregiver p st = None)"
  by (simp add: scan_caregiver_def getAssignedCaregiver_def Let_def split: option.splits)

lemma cycle_sigs_caregiver:
  "cycle_sigs p cs (scan_caregiver q st) = cycle_sigs p cs (getAssignedCaregiver q st)"
  using scan_caregiver_None[of q st] by (auto simp: cycle_sigs_def fun_eq_iff split: option.splits)

lemma fan_out_caregiver:
  "fan_out cs (scan_caregiver q st) = fan_out cs (getAssignedCaregiver q st)"
  using scan_caregiver_None[of q st] by (auto simp: fan_out_def split: option.splits)

lemma scanned_doses:
  "filter (fires now meds already)
     (filter (\<lambda>d. d_patientId d = p \<and> d_takenAt d = None \<and> d_scheduledTime d \<noteq> None) ds)
   = filter (\<lambda>d. d_patientId d = p \<and> d_takenAt d = None \<and> fires now meds already d) ds"
  by (induction ds) (auto simp: fires_def)

lemma misses_scanned:
  "filter (fires now (MEDICATIONS st) (notified_ids (NOTIFICATIONS st))) (allDoses p st) = new_misses now p st"
  unfolding allDoses_def new_misses_def by (rule scanned_doses)

lemma detect_unfold:
  assumes "find (\<lambda>u. u_id u = p) (USERS st) = Some pat"
  shows "detectMissedDoses now p st =
     foldl (scan_dose now p pat (contacts_of p st) (scan_caregiver p st) (MEDICATIONS st)
              (notified_ids (NOTIFICATIONS st)))
       (0, st)
       (allDoses p st)"
  using assms by (simp add: detectMissedDoses_def contacts_of_def scan_caregiver_def allDoses_def Let_def)

lemma detect_missing:
  "find (\<lambda>u. u_id u = p) (USERS st) = None \<Longrightarrow> detectMissedDoses now p st = (0, st)"
  by (simp add: detectMissedDoses_def Let_def)

lemma detect_count:
  assumes "find (\<lambda>u. u_id u = p) (USERS st) \<noteq> None"
  shows "fst (detectMissedDoses now p st) = length (new_misses now p st)"
proof -
  from assms obtain pat where "find (\<lambda>u. u_id u = p) (USERS st) = Some pat" by blast
  then show ?thesis
    by (simp add: detect_unfold scan_fold_count misses_scanned)
qed

lemma detect_fields:
  "USERS (snd (detectMissedDoses now p st)) = USERS st"
  "MEDICATIONS (snd (detectMissedDoses now p st)) = MEDICATIONS st"
  "DOSES (snd (detectMissedDoses now p st)) = DOSES st"
  "EMERGENCY_CONTACTS (snd (detectMissedDoses now p st)) = EMERGENCY_CONTACTS st"
  "assigned_id q (undefined_key (snd (detectMissedDoses now p st))) = assigned_id q (undefined_key st)"
  "sms_mode (snd (detectMissedDoses now p st)) = sms_mode st"
  "sms_config (snd (detectMissedDoses now p st)) = sms_config st"
proof -
  show "USERS (snd (detectMissedDoses now p st)) = USERS st"
    by (cases "find (\<lambda>u. u_id u = p) (USERS st)") (simp_all add: detect_missing detect_unfold scan_fold_fields)
  show "MEDICATIONS (snd (detectMissedDoses now p st)) = MEDICATIONS st"
    by (cases "find (\<lambda>u. u_id u = p) (USERS st)") (simp_all add: detect_missing detect_unfold scan_fold_fields)
  show "DOSES (snd (detectMissedDoses now p st)) = DOSES st"
    by (cases "find (\<lambda>u. u_id u = p) (USERS st)") (simp_all add: detect_missing detect_unfold scan_fold_fields)
  show "EMERGENCY_CONTACTS (snd (detectMissedDoses now p st)) = EMERGENCY_CONTACTS st"
    by (cases "find (\<lambda>u. u_id u = p) (USERS st)") (simp_all add: detect_missing detect_unfold scan_fold_fields)
  show "assigned_id q (undefined_key (snd (detectMissedDoses now p st))) = assigned_id q (undefined_key st)"
    by (cases "find (\<lambda>u. u_id u = p) (USERS st)") (simp_all add: detect_missing detect_unfold scan_fold_fields)
  show "sms_mode (snd (detectMissedDoses now p st)) = sms_mode st"
    by (cases "find (\<lambda>u. u_id u = p) (USERS st)") (simp_all add: detect_missing detect_unfold scan_fold_fields)
  show "sms_config (snd (detectMissedDoses now p st)) = sms_config st"
    by (cases "find (\<lambda>u. u_id u = p) (USERS st)") (simp_all add: detect_missing detect_unfold scan_fold_fields)
qed

lemma detect_notifications:
  assumes "find (\<lambda>u. u_id u = p) (USERS st) \<noteq> None"
  shows "\<exists>added. NOTIFICATIONS (snd (detectMissedDoses now p st)) = NOTIFICATIONS st @ added
      \<and> map sig added
         = concat (map (cycle_sigs p (contacts_of p st) (getAssignedCaregiver p st)) (new_misses now p st))"
proof -
  from assms obtain pat where pat: "find (\<lambda>u. u_id u = p) (USERS st) = Some pat" by blast
  show ?thesis
    using scan_fold_notifications[of now p pat "contacts_of p st" "scan_caregiver p st" "MEDICATIONS st"
        "notified_ids (NOTIFICATIONS st)" "(0, st)" "allDoses p st"]
    unfolding misses_scanned cycle_sigs_caregiver detect_unfold[OF pat] by simp
qed

text \<open>The gateway calls of a scan: every recipient, once for every newly missed dose.\<close>

lemma detect_calls:
  assumes "find (\<lambda>u. u_id u = p) (USERS st) \<noteq> None"
  shows "gateway_calls (snd (detectMissedDoses now p st))
     = gateway_calls st
       @ concat (replicate (length (new_misses now p st))
                   (recipients (contacts_of p st) (scan_caregiver p st)))"
proof -
  from assms obtain pat where pat: "find (\<lambda>u. u_id u = p) (USERS st) = Some pat" by blast
  show ?thesis
    by (simp add: detect_unfold[OF pat] scan_fold_calls misses_scanned)
qed


text \<open>
  While the shared entry holds the caregiver object, a scan leaves it as it is: not
  one of its gateway calls writes an audit entry, and no callback is queued.
\<close>

lemma detect_object:
  assumes "stored_logs (undefined_key st) = None"
  shows "undefined_key (snd (detectMissedDoses now p st)) = undefined_key st"
    and "microtasks (snd (detectMissedDoses now p st)) = microtasks st"
proof -
  have "undefined_key (snd (detectMissedDoses now p st)) = undefined_key st
        \<and> microtasks (snd (detectMissedDoses now p st)) = microtasks st"
  proof (cases "find (\<lambda>u. u_id u = p) (USERS st)")
    case None
    then show ?thesis by (simp add: detect_missing)
  next
    case (Some pat)
    from assms have "stored_logs (undefined_key (snd (0::nat, st))) = None" by simp
    from scan_fold_object[OF this] show ?thesis
      by (simp add: detect_unfold[OF Some])
  qed
  then show "undefined_key (snd (detectMissedDoses now p st)) = undefined_key st"
    and "microtasks (snd (detectMissedDoses now p st)) = microtasks st"
    by simp_all
qed

text \<open>A resolved caregiver means that the shared entry holds the caregiver object.\<close>

lemma caregiver_object:
  "getAssignedCaregiver p st \<noteq> None \<Longrightarrow> stored_logs (undefined_key st) = None"
  by (cases "undefined_key st") (simp_all add: getAssignedCaregiver_def)

lemma detect_in_flight:
  assumes "find (\<lambda>u. u_id u = p) (USERS st) \<noteq> None"
  shows "length (in_flight (snd (detectMissedDoses now p st)))
     = length (in_flight st)
       + (if suspends (sms_mode st) (sms_config st)
          then fan_out (contacts_of p st) (getAssignedCaregiver p st) * length (new_misses now p st) else 0)"
proof -
  from assms obtain pat where pat: "find (\<lambda>u. u_id u = p) (USERS st) = Some pat" by blast
  show ?thesis
    by (simp add: detect_unfold[OF pat] scan_fold_in_flight misses_scanned fan_out_caregiver)
qed

lemma scan_fold_idle:
  "\<forall>d\<in>set ds. \<not> fires now meds already d \<Longrightarrow>
   foldl (scan_dose now p pat cs cg meds already) acc ds = acc"
  by (induction ds arbitrary: acc) (simp_all add: scan_dose_skip)

lemma detect_idle:
  assumes "new_misses now p st = []"
  shows "detectMissedDoses now p st = (0, st)"
proof (cases "find (\<lambda>u. u_id u = p) (USERS st)")
  case None
  then show ?thesis by (rule detect_missing)
next
  case (Some pat)
  from assms have "\<forall>d\<in>set (allDoses p st).
      \<not> fires now (MEDICATIONS st) (notified_ids (NOTIFICATIONS st)) d"
    unfolding misses_scanned[symmetric] by (simp add: filter_empty_conv)
  then show ?thesis by (simp add: detect_unfold[OF Some] scan_fold_idle)
qed

section \<open>The earlier variant of the scan\<close>

lemma same_but_entropy_refl [simp]: "same_but_entropy st st"
  by (simp add: same_but_entropy_def)

lemma same_but_entropy_trans:
  "same_but_entropy a b \<Longrightarrow> same_but_entropy b c \<Longrightarrow> same_but_entropy a c"
  by (cases a; cases b; cases c) (simp add: same_but_entropy_def)

lemma same_but_entropy_fields:
  assumes "same_but_entropy st st'"
  shows "USERS st' = USERS st" "MEDICATIONS st' = MEDICATIONS st" "DOSES st' = DOSES st"
    "EMERGENCY_CONTACTS st' = EMERGENCY_CONTACTS st" "NOTIFICATIONS st' = NOTIFICATIONS st"
    "undefined_key st' = undefined_key st" "sms_mode st' = sms_mode st" "sms_config st' = sms_config st"
    "microtasks st' = microtasks st" "in_flight st' = in_flight st" "gateway_calls st' = gateway_calls st"
  using assms by (cases st; cases st'; simp add: same_but_entropy_def)+

lemma uuid_legacy_same [simp]: "same_but_entropy st (snd (uuid_legacy st))"
  by (simp add: uuid_legacy_def same_but_entropy_def)

lemma sms_contacts_legacy_same:
  "same_but_entropy st (snd (sms_contacts_legacy now p pat dose due med cs st))"
proof (induction cs arbitrary: st)
  case Nil
  then show ?case by simp
next
  case (Cons c cs)
  have "same_but_entropy (snd (uuid_legacy st))
          (snd (sms_contacts_legacy now p pat dose due med cs (snd (uuid_legacy st))))"
    by (rule Cons.IH)
  then have "same_but_entropy st (snd (sms_contacts_legacy now p pat dose due med cs (snd (uuid_legacy st))))"
    using same_but_entropy_trans uuid_legacy_same by blast
  then show ?case by (simp add: Let_def split_beta)
qed

lemma sms_contacts_legacy_sig:
  "map sig (fst (sms_contacts_legacy now p pat dose due med cs st))
     = replicate (length cs) (SMS_SENT, Some (d_id dose), p)"
  by (induction cs arbitrary: st) (simp_all add: Let_def split_beta sig_def)

lemma scan_dose_legacy_skip:
  "\<not> fires now meds already d \<Longrightarrow> scan_dose_legacy now p pat meds already acc d = acc"
  by (auto simp: scan_dose_legacy_def fires_def Let_def split: option.splits)

lemma scan_dose_legacy_fire:
  assumes "fires now meds already d"
  shows "\<exists>added st2. scan_dose_legacy now p pat meds already acc d = (fst acc @ added, st2)
      \<and> map sig added = cycle_sigs p (contacts_of p (snd acc)) (None :: unit option) d
      \<and> same_but_entropy (snd acc) st2"
proof -
  from assms obtain due med where dm: "d_scheduledTime d = Some due" "thresholdMs \<le> now - due"
      "d_id d \<notin> set already" "find (\<lambda>m. m_id m = d_medId d) meds = Some med"
    by (auto simp: fires_def split: option.splits)
  let ?st1 = "snd (uuid_legacy (snd acc))"
  let ?cs = "filter (\<lambda>c. c_patientId c = p) (EMERGENCY_CONTACTS ?st1)"
  let ?sms = "sms_contacts_legacy now p pat d due med ?cs ?st1"
  let ?missed = "\<lparr>n_id = fst (uuid_legacy (snd acc)), n_patientId = p, n_doseId = Some (d_id d),
                  n_type = MISSED_DOSE, n_message = LegacyMissedMsg (m_name med) (m_dosage med) due,
                  n_timestamp = now, n_read = False, n_contactId = None, n_caregiverId = None\<rparr>"
  have step: "scan_dose_legacy now p pat meds already acc d = (fst acc @ (?missed # fst ?sms), snd ?sms)"
    using dm by (simp add: scan_dose_legacy_def Let_def split_beta)
  have cs: "?cs = contacts_of p (snd acc)"
    using same_but_entropy_fields(4)[OF uuid_legacy_same, of "snd acc"] by (simp add: contacts_of_def)
  have sigs: "map sig (?missed # fst ?sms) = cycle_sigs p (contacts_of p (snd acc)) (None :: unit option) d"
    by (simp add: sms_contacts_legacy_sig cycle_sigs_def cs) (simp add: sig_def)
  have same: "same_but_entropy (snd acc) (snd ?sms)"
    using same_but_entropy_trans[OF uuid_legacy_same sms_contacts_legacy_same] .
  from step sigs same show ?thesis by blast
qed

lemma scan_fold_legacy:
  "\<exists>added. fst (foldl (scan_dose_legacy now p pat meds already) acc ds) = fst acc @ added
      \<and> map sig added
          = concat (map (cycle_sigs p (contacts_of p (snd acc)) (None :: unit option))
                        (filter (fires now meds already) ds))
      \<and> same_but_entropy (snd acc) (snd (foldl (scan_dose_legacy now p pat meds already) acc ds))"
proof (induction ds arbitrary: acc)
  case Nil
  then show ?case by simp
next
  case (Cons d ds)
  let ?step = "scan_dose_legacy now p pat meds already acc d"
  obtain rest where rest: "fst (foldl (scan_dose_legacy now p pat meds already) ?step ds) = fst ?step @ rest"
     "map sig rest = concat (map (cycle_sigs p (contacts_of p (snd ?step)) (None :: unit option))
                        (filter (fires now meds already) ds))"
     "same_but_entropy (snd ?step) (snd (foldl (scan_dose_legacy now p pat meds already) ?step ds))"
    using Cons.IH by blast
  show ?case
  proof (cases "fires now meds already d")
    case True
    then obtain first st2 where first: "?step = (fst acc @ first, st2)"
       "map sig first = cycle_sigs p (contacts_of p (snd acc)) (None :: unit option) d"
       "same_but_entropy (snd acc) st2"
      using scan_dose_legacy_fire by blast
    have cs: "contacts_of p st2 = contacts_of p (snd acc)"
      using same_but_entropy_fields(4)[OF first(3)] by (simp add: contacts_of_def)
    from rest first cs True
    have "fst (foldl (scan_dose_legacy now p pat meds already) acc (d # ds)) = fst acc @ (first @ rest)
       \<and> map sig (first @ rest)
          = concat (map (cycle_sigs p (contacts_of p (snd acc)) (None :: unit option))
                        (filter (fires now meds already) (d # ds)))"
      by simp
    moreover from rest(3) first have "same_but_entropy (snd acc)
        (snd (foldl (scan_dose_legacy now p pat meds already) acc (d # ds)))"
      using same_but_entropy_trans by fastforce
    ultimately show ?thesis by blast
  next
    case False
    with rest show ?thesis by (simp add: scan_dose_legacy_skip)
  qed
qed

lemma detect_legacy_effect:
  "\<exists>added. fst (detectMissedDoses_legacy now p st) = length added
      \<and> NOTIFICATIONS (snd (detectMissedDoses_legacy now p st)) = NOTIFICATIONS st @ added
      \<and> map sig added
          = concat (map (cycle_sigs p (contacts_of p st) (None :: unit option)) (new_misses now p st))
      \<and> DOSES (snd (detectMissedDoses_legacy now p st)) = DOSES st
      \<and> MEDICATIONS (snd (detectMissedDoses_legacy now p st)) = MEDICATIONS st
      \<and> USERS (snd (detectMissedDoses_legacy now p st)) = USERS st
      \<and> EMERGENCY_CONTACTS (snd (detectMissedDoses_legacy now p st)) = EMERGENCY_CONTACTS st
      \<and> undefined_key (snd (detectMissedDoses_legacy now p st)) = undefined_key st"
proof -
  let ?f = "foldl (scan_dose_legacy now p (find (\<lambda>u. u_id u = p) (USERS st)) (MEDICATIONS st)
              (notified_ids (NOTIFICATIONS st))) ([], st) (allDoses p st)"
  obtain added where added: "fst ?f = fst ([]::notification list, st) @ added"
     "map sig added = concat (map (cycle_sigs p (contacts_of p (snd ([]::notification list, st))) (None :: unit option))
                        (filter (fires now (MEDICATIONS st) (notified_ids (NOTIFICATIONS st))) (allDoses p st)))"
     "same_but_entropy (snd ([]::notification list, st)) (snd ?f)"
    using scan_fold_legacy[of now p "find (\<lambda>u. u_id u = p) (USERS st)" "MEDICATIONS st"
        "notified_ids (NOTIFICATIONS st)" "([], st)" "allDoses p st"] by blast
  have run: "detectMissedDoses_legacy now p st
      = (length (fst ?f), if fst ?f \<noteq> [] then (snd ?f)\<lparr>NOTIFICATIONS := NOTIFICATIONS (snd ?f) @ fst ?f\<rparr> else snd ?f)"
    by (simp add: detectMissedDoses_legacy_def allDoses_def Let_def split_beta)
  note same = same_but_entropy_fields[OF added(3)[simplified]]
  from added(1) have f: "fst ?f = added" by simp
  have "fst (detectMissedDoses_legacy now p st) = length added" by (simp add: run f)
  moreover have "NOTIFICATIONS (snd (detectMissedDoses_legacy now p st)) = NOTIFICATIONS st @ added"
    by (simp add: run f same)
  moreover have "map sig added
          = concat (map (cycle_sigs p (contacts_of p st) (None :: unit option)) (new_misses now p st))"
    using added(2) by (simp add: misses_scanned)
  moreover have "DOSES (snd (detectMissedDoses_legacy now p st)) = DOSES st"
      "MEDICATIONS (snd (detectMissedDoses_legacy now p st)) = MEDICATIONS st"
      "USERS (snd (detectMissedDoses_legacy now p st)) = USERS st"
      "EMERGENCY_CONTACTS (snd (detectMissedDoses_legacy now p st)) = EMERGENCY_CONTACTS st"
      "undefined_key (snd (detectMissedDoses_legacy now p st)) = undefined_key st"
    by (simp_all add: run f same)
  ultimately show ?thesis by blast
qed

section \<open>Counting what a scan appends\<close>

lemma new_notifications_appended:
  "NOTIFICATIONS st' = NOTIFICATIONS st @ added \<Longrightarrow> new_notifications st st' = added"
  by (simp add: new_notifications_def)

lemma count_type_sig: "count_type t ns = length (filter (\<lambda>s. fst s = t) (map sig ns))"
  by (induction ns) (simp_all add: count_type_def sig_def)

lemma count_cycles:
  "length (filter (\<lambda>s. fst s = t) (concat (map (cycle_sigs p cs cg) ds)))
     = (case t of MISSED_DOSE \<Rightarrow> 1 | SMS_SENT \<Rightarrow> length cs
        | CAREGIVER_ALERT \<Rightarrow> (case cg of None \<Rightarrow> 0 | Some x \<Rightarrow> 1) | SYSTEM \<Rightarrow> 0) * length ds"
proof (induction ds)
  case Nil
  then show ?case by simp
next
  case (Cons d ds)
  then show ?case by (cases t; cases cg) (simp_all add: cycle_sigs_def)
qed

lemma length_cycles:
  "length (concat (map (cycle_sigs p cs cg) ds)) = (1 + fan_out cs cg) * length ds"
  by (induction ds) (auto simp: cycle_sigs_def fan_out_def split: option.splits)

lemma alerted_sig:
  "alerted i ns \<longleftrightarrow> (\<exists>s\<in>set (map sig ns). fst s = MISSED_DOSE \<and> fst (snd s) = Some i)"
  by (auto simp: alerted_def list_ex_iff sig_def)

lemma alerted_cycles:
  "(\<exists>s\<in>set (concat (map (cycle_sigs p cs cg) ds)). fst s = MISSED_DOSE \<and> fst (snd s) = Some i)
     \<longleftrightarrow> (\<exists>d\<in>set ds. d_id d = i)"
  by (auto simp: cycle_sigs_def split: option.splits)

lemma cycle_ids:
  "(\<exists>s\<in>set (concat (map (cycle_sigs p cs cg) ds)). fst (snd s) = Some i) \<longleftrightarrow> (\<exists>d\<in>set ds. d_id d = i)"
  by (auto simp: cycle_sigs_def split: option.splits)


lemma notified_ids_mem:
  "i \<in> set (notified_ids ns) \<longleftrightarrow> i \<noteq> [] \<and> (\<exists>n\<in>set ns. n_doseId n = Some i)"
proof (induction ns)
  case Nil
  then show ?case by simp
next
  case (Cons n ns)
  show ?case
  proof (cases "n_doseId n")
    case None
    with Cons show ?thesis by simp
  next
    case (Some j)
    with Cons show ?thesis by (cases "j = []") auto
  qed
qed

lemma notified_ids_set:
  "i \<in> set (notified_ids ns) \<longleftrightarrow> i \<noteq> [] \<and> (\<exists>s\<in>set (map sig ns). fst (snd s) = Some i)"
  by (simp add: notified_ids_mem sig_def)

lemma notified_ids_append: "notified_ids (xs @ ys) = notified_ids xs @ notified_ids ys"
  by (induction xs) simp_all


section \<open>Facts about the demo store\<close>

lemma demo_patient: "find (\<lambda>u. u_id u = ''demo_patient'') (USERS demo_store) \<noteq> None"
  by (simp add: demo_store_def)

lemma demo_contacts: "length (contacts_of ''demo_patient'' demo_store) = 2"
  by (simp add: contacts_of_def demo_store_def)

lemma demo_caregiver: "getAssignedCaregiver ''demo_patient'' demo_store \<noteq> None"
  by (simp add: getAssignedCaregiver_def demo_store_def)

lemma demo_dose_fields:
  "d_id demo_dose = ''dose_1''" "d_medId demo_dose = ''med_1''" "d_patientId demo_dose = ''demo_patient''"
  "d_scheduledTime demo_dose = Some 0" "d_takenAt demo_dose = None"
  by (simp_all add: demo_dose_def)

lemma demo_doses_list: "DOSES demo_store = [demo_dose]"
  by (simp add: demo_store_def)

lemma demo_misses: "new_misses 1860000 ''demo_patient'' demo_store = DOSES demo_store"
  by (simp add: new_misses_def fires_def demo_doses_list demo_dose_fields thresholdMs_def
        MISSED_THRESHOLD_MINS_def)
     (simp add: demo_store_def)

lemma demo_doses: "length (DOSES demo_store) = 1"
  by (simp add: demo_doses_list)

lemma demo_empty:
  "NOTIFICATIONS demo_store = []" "audit_rows demo_store = []" "in_flight demo_store = []"
  "gateway_calls demo_store = []"
  by (simp_all add: demo_store_def audit_rows_def)

lemma demo_mode: "sms_mode demo_store = ''simulation''"
  by (simp add: demo_store_def)


lemma new_misses_users [simp]: "new_misses now p (st\<lparr>USERS := us\<rparr>) = new_misses now p st"
  by (simp add: new_misses_def)

lemma contacts_of_users [simp]: "contacts_of p (st\<lparr>USERS := us\<rparr>) = contacts_of p st"
  by (simp add: contacts_of_def)

lemma new_misses_no_medication: "MEDICATIONS st = [] \<Longrightarrow> new_misses now p st = []"
  by (simp add: new_misses_def fires_def split: option.splits)

section \<open>What a scan returns (C4, C5)\<close>

lemma detect_new:
  assumes "find (\<lambda>u. u_id u = p) (USERS st) \<noteq> None"
  shows "NOTIFICATIONS (snd (detectMissedDoses now p st))
           = NOTIFICATIONS st @ new_notifications st (snd (detectMissedDoses now p st))"
    and "map sig (new_notifications st (snd (detectMissedDoses now p st)))
         = concat (map (cycle_sigs p (contacts_of p st) (getAssignedCaregiver p st)) (new_misses now p st))"
proof -
  obtain added where a: "NOTIFICATIONS (snd (detectMissedDoses now p st)) = NOTIFICATIONS st @ added"
    "map sig added
         = concat (map (cycle_sigs p (contacts_of p st) (getAssignedCaregiver p st)) (new_misses now p st))"
    using detect_notifications[OF assms] by blast
  then have "new_notifications st (snd (detectMissedDoses now p st)) = added"
    by (simp add: new_notifications_appended)
  with a show "NOTIFICATIONS (snd (detectMissedDoses now p st))
           = NOTIFICATIONS st @ new_notifications st (snd (detectMissedDoses now p st))"
    and "map sig (new_notifications st (snd (detectMissedDoses now p st)))
         = concat (map (cycle_sigs p (contacts_of p st) (getAssignedCaregiver p st)) (new_misses now p st))"
    by simp_all
qed

lemma detect_legacy_new:
  shows "NOTIFICATIONS (snd (detectMissedDoses_legacy now p st))
           = NOTIFICATIONS st @ new_notifications st (snd (detectMissedDoses_legacy now p st))"
    and "map sig (new_notifications st (snd (detectMissedDoses_legacy now p st)))
         = concat (map (cycle_sigs p (contacts_of p st) (None :: unit option)) (new_misses now p st))"
    and "fst (detectMissedDoses_legacy now p st)
         = length (new_notifications st (snd (detectMissedDoses_legacy now p st)))"
proof -
  obtain added where a: "fst (detectMissedDoses_legacy now p st) = length added"
    "NOTIFICATIONS (snd (detectMissedDoses_legacy now p st)) = NOTIFICATIONS st @ added"
    "map sig added
          = concat (map (cycle_sigs p (contacts_of p st) (None :: unit option)) (new_misses now p st))"
    using detect_legacy_effect[of now p st] by blast
  then have "new_notifications st (snd (detectMissedDoses_legacy now p st)) = added"
    by (simp add: new_notifications_appended)
  with a show "NOTIFICATIONS (snd (detectMissedDoses_legacy now p st))
           = NOTIFICATIONS st @ new_notifications st (snd (detectMissedDoses_legacy now p st))"
    and "map sig (new_notifications st (snd (detectMissedDoses_legacy now p st)))
         = concat (map (cycle_sigs p (contacts_of p st) (None :: unit option)) (new_misses now p st))"
    and "fst (detectMissedDoses_legacy now p st)
         = length (new_notifications st (snd (detectMissedDoses_legacy now p st)))"
    by simp_all
qed

lemma detect_legacy_count:
  "fst (detectMissedDoses_legacy now p st) = (1 + length (contacts_of p st)) * length (new_misses now p st)"
proof -
  have "fst (detectMissedDoses_legacy now p st)
      = length (map sig (new_notifications st (snd (detectMissedDoses_legacy now p st))))"
    by (simp add: detect_legacy_new(3))
  also have "\<dots> = (1 + fan_out (contacts_of p st) (None :: unit option)) * length (new_misses now p st)"
    unfolding detect_legacy_new(2) by (rule length_cycles)
  finally show ?thesis by (simp add: fan_out_def)
qed

lemma detect_missed_count:
  "fst (detectMissedDoses now p st)
     = count_type MISSED_DOSE (new_notifications st (snd (detectMissedDoses now p st)))"
proof (cases "find (\<lambda>u. u_id u = p) (USERS st)")
  case None
  then show ?thesis by (simp add: detect_missing new_notifications_def count_type_def)
next
  case (Some pat)
  then have f: "find (\<lambda>u. u_id u = p) (USERS st) \<noteq> None" by simp
  show ?thesis
    unfolding count_type_sig detect_new(2)[OF f] count_cycles by (simp add: detect_count[OF f])
qed

lemma detect_new_length:
  assumes f: "find (\<lambda>u. u_id u = p) (USERS st) \<noteq> None"
  shows "length (new_notifications st (snd (detectMissedDoses now p st)))
     = (1 + fan_out (contacts_of p st) (getAssignedCaregiver p st)) * fst (detectMissedDoses now p st)"
proof -
  have "length (new_notifications st (snd (detectMissedDoses now p st)))
      = length (map sig (new_notifications st (snd (detectMissedDoses now p st))))" by simp
  also have "\<dots> = (1 + fan_out (contacts_of p st) (getAssignedCaregiver p st)) * length (new_misses now p st)"
    unfolding detect_new(2)[OF f] by (rule length_cycles)
  finally show ?thesis by (simp add: detect_count[OF f])
qed

text \<open>
  C5, as the claim states it, fails on the earlier variant: it never looks at whether
  the patient record exists before it alerts (the record only supplies the name in the
  SMS text, \<open>'Patient'\<close> when it is missing). With the user table emptied, it still
  appends three notifications for the overdue dose and returns 3.
\<close>

theorem legacy_alerts_without_patient:
  "find (\<lambda>u. u_id u = ''demo_patient'') (USERS (demo_store\<lparr>USERS := []\<rparr>)) = None
   \<and> fst (detectMissedDoses_legacy 1860000 ''demo_patient'' (demo_store\<lparr>USERS := []\<rparr>)) = 3
   \<and> length (NOTIFICATIONS (snd (detectMissedDoses_legacy 1860000 ''demo_patient'' (demo_store\<lparr>USERS := []\<rparr>))))
      = 3
   \<and> NOTIFICATIONS (demo_store\<lparr>USERS := []\<rparr>) = []"
proof -
  let ?st = "demo_store\<lparr>USERS := []\<rparr>"
  let ?st' = "snd (detectMissedDoses_legacy 1860000 ''demo_patient'' ?st)"
  have n: "NOTIFICATIONS ?st = []" by (simp add: demo_empty)
  have r: "fst (detectMissedDoses_legacy 1860000 ''demo_patient'' ?st) = 3"
    by (simp add: detect_legacy_count demo_misses demo_doses demo_contacts)
  have "length (NOTIFICATIONS ?st') = length (NOTIFICATIONS ?st @ new_notifications ?st ?st')"
    using detect_legacy_new(1)[of 1860000 "''demo_patient''" ?st] by simp
  also have "\<dots> = 3"
    using detect_legacy_new(3)[of 1860000 "''demo_patient''" ?st] r n by simp
  finally have "length (NOTIFICATIONS ?st') = 3" .
  with r n show ?thesis by simp
qed

text \<open>
  C5 amended. If the supplied patientId does not identify an existing patient record,
  the v3 \<open>detectMissedDoses\<close> returns 0 and leaves the whole store as it was:
  notification feed, audit trail, contact directory and everything else.
\<close>

theorem detect_unknown_patient:
  "find (\<lambda>u. u_id u = p) (USERS st) = None \<longrightarrow> detectMissedDoses now p st = (0, st)"
  by (simp add: detect_missing)

theorem detect_unknown_patient_witness:
  "detectMissedDoses 1860000 ''demo_patient'' (demo_store\<lparr>USERS := []\<rparr>) = (0, demo_store\<lparr>USERS := []\<rparr>)"
  using detect_unknown_patient[of "''demo_patient''" "demo_store\<lparr>USERS := []\<rparr>" 1860000]
  by simp

text \<open>
  C4, as the claim states it, fails on the earlier variant, which returns
  \<open>newNotifications.length\<close>: for the one newly missed dose of the demo patient, who has
  two contacts, it returns 3.
\<close>

theorem legacy_returns_notification_count:
  "length (new_misses 1860000 ''demo_patient'' demo_store) = 1
   \<and> length (contacts_of ''demo_patient'' demo_store) = 2
   \<and> fst (detectMissedDoses_legacy 1860000 ''demo_patient'' demo_store) = 3"
  by (simp add: detect_legacy_count demo_misses demo_doses demo_contacts)

text \<open>
  C4 amended. The v3 \<open>detectMissedDoses\<close> returns the number of doses that started an
  alert cycle during the call: the number of \<open>missed_dose\<close> notifications it appended,
  which for an existing patient is the number of newly missed doses, while the
  notifications it appended number that count times one plus the recipients. The
  earlier variant returns the number of notifications it appended, one plus the number
  of contacts for each newly missed dose.
\<close>

theorem detect_returns_dose_count:
  "fst (detectMissedDoses now p st)
     = count_type MISSED_DOSE (new_notifications st (snd (detectMissedDoses now p st)))
   \<and> (find (\<lambda>u. u_id u = p) (USERS st) \<noteq> None \<longrightarrow>
        fst (detectMissedDoses now p st) = length (new_misses now p st)
        \<and> length (new_notifications st (snd (detectMissedDoses now p st)))
           = (1 + fan_out (contacts_of p st) (getAssignedCaregiver p st)) * fst (detectMissedDoses now p st))
   \<and> fst (detectMissedDoses_legacy now p st)
       = length (new_notifications st (snd (detectMissedDoses_legacy now p st)))
   \<and> fst (detectMissedDoses_legacy now p st)
       = (1 + length (contacts_of p st)) * length (new_misses now p st)"
  using detect_missed_count detect_count detect_new_length detect_legacy_new(3) detect_legacy_count
  by blast

theorem detect_returns_dose_count_witness:
  "fst (detectMissedDoses 1860000 ''demo_patient'' demo_store) = 1
   \<and> length (new_notifications demo_store (snd (detectMissedDoses 1860000 ''demo_patient'' demo_store))) = 4
   \<and> count_type MISSED_DOSE
        (new_notifications demo_store (snd (detectMissedDoses 1860000 ''demo_patient'' demo_store))) = 1"
proof -
  have f: "fan_out (contacts_of ''demo_patient'' demo_store) (getAssignedCaregiver ''demo_patient'' demo_store) = 3"
    using demo_caregiver by (auto simp: fan_out_def demo_contacts)
  from demo_patient f detect_returns_dose_count[of 1860000 "''demo_patient''" demo_store]
  show ?thesis by (simp add: demo_misses demo_doses)
qed

section \<open>Fan-out (C3)\<close>

lemma demo_slot: "undefined_key demo_store = JsonObject [(''demo_patient'', ''demo_caregiver'')]"
  by (simp add: demo_store_def)

text \<open>The demo store is the storage after the patient has chosen the caregiver.\<close>

lemma demo_assigned:
  "assignCaregiver ''demo_patient'' (Some ''demo_caregiver'') (demo_store\<lparr>undefined_key := Missing\<rparr>)
     = demo_store"
proof -
  have "assignCaregiver ''demo_patient'' (Some ''demo_caregiver'') (demo_store\<lparr>undefined_key := Missing\<rparr>)
          = demo_store\<lparr>undefined_key := undefined_key demo_store\<rparr>"
    unfolding demo_slot by (simp add: assignCaregiver_def)
  then show ?thesis by simp
qed

lemma demo_caregiver_user:
  "getAssignedCaregiver ''demo_patient'' demo_store
     = Some \<lparr>u_id = ''demo_caregiver'', u_name = ''Emma Williams'', u_email = ''caregiver@demo.com'',
             u_phone = None\<rparr>"
  by (simp add: getAssignedCaregiver_def demo_store_def)

lemma demo_recipients:
  "recipients (contacts_of ''demo_patient'' demo_store) (scan_caregiver ''demo_patient'' demo_store)
     = [''+1-555-0101'', ''+1-555-0102'', ''caregiver@demo.com'']"
  by (simp add: recipients_def contacts_of_def scan_caregiver_def demo_store_def)

text \<open>
  With a caregiver assigned, no scan and no settlement of its sends writes an audit
  entry: the notifications and the gateway calls of the fan-out are there, the audit
  trail is not.
\<close>

lemma fan_out_no_rows:
  assumes "getAssignedCaregiver p st \<noteq> None"
  shows "undefined_key (settle_all sched clock (snd (detectMissedDoses now p st))) = undefined_key st"
    and "audit_rows (settle_all sched clock (snd (detectMissedDoses now p st))) = []"
proof -
  from assms have o: "stored_logs (undefined_key st) = None" by (rule caregiver_object)
  have k: "undefined_key (snd (detectMissedDoses now p st)) = undefined_key st"
    by (rule detect_object(1)[OF o])
  with o have "stored_logs (undefined_key (snd (detectMissedDoses now p st))) = None" by simp
  from settle_all_object[OF this] k
  show e: "undefined_key (settle_all sched clock (snd (detectMissedDoses now p st))) = undefined_key st"
    by simp
  show "audit_rows (settle_all sched clock (snd (detectMissedDoses now p st))) = []"
    by (simp add: audit_rows_def e o)
qed

text \<open>
  C3. The claim is what the engine promises in its own header (a missed dose goes to
  the emergency contacts and the caregiver by \<open>SMSGateway.send\<close>, and every send is
  written to \<open>ah_alert_logs\<close>), and the code keeps the first half only. On the demo
  store (the patient with N = 2 emergency contacts, the caregiver assigned by
  \<open>assignCaregiver\<close>, one dose 31 minutes overdue) the scan appends one
  \<open>missed_dose\<close>, two \<open>sms_sent\<close> and one \<open>caregiver_alert\<close> notification and calls
  the gateway for the three recipients, and the audit trail still has no entry, not
  N + 1 = 3: \<open>AH.KEYS\<close> has no entry \<open>ALERT_LOGS\<close> and no entry
  \<open>CAREGIVER_ASSIGNMENT\<close>, the audit trail and the caregiver assignment are one
  \<open>localStorage\<close> entry, and with the caregiver object stored there \<open>logs.unshift\<close>
  throws in every send. The same holds in every mode and with every configuration of
  the gateway, however the suspended sends settle.
\<close>

theorem fan_out_writes_no_rows:
  "assignCaregiver ''demo_patient'' (Some ''demo_caregiver'') (demo_store\<lparr>undefined_key := Missing\<rparr>)
     = demo_store
   \<and> length (contacts_of ''demo_patient'' demo_store) = 2
   \<and> getAssignedCaregiver ''demo_patient'' demo_store
       = Some \<lparr>u_id = ''demo_caregiver'', u_name = ''Emma Williams'', u_email = ''caregiver@demo.com'',
               u_phone = None\<rparr>
   \<and> length (new_misses 1860000 ''demo_patient'' demo_store) = 1
   \<and> fst (detectMissedDoses 1860000 ''demo_patient'' demo_store) = 1
   \<and> count_type MISSED_DOSE
        (new_notifications demo_store (snd (detectMissedDoses 1860000 ''demo_patient'' demo_store))) = 1
   \<and> count_type SMS_SENT
        (new_notifications demo_store (snd (detectMissedDoses 1860000 ''demo_patient'' demo_store))) = 2
   \<and> count_type CAREGIVER_ALERT
        (new_notifications demo_store (snd (detectMissedDoses 1860000 ''demo_patient'' demo_store))) = 1
   \<and> gateway_calls (snd (detectMissedDoses 1860000 ''demo_patient'' demo_store))
       = [''+1-555-0101'', ''+1-555-0102'', ''caregiver@demo.com'']
   \<and> undefined_key (snd (detectMissedDoses 1860000 ''demo_patient'' demo_store))
       = JsonObject [(''demo_patient'', ''demo_caregiver'')]
   \<and> audit_rows (snd (detectMissedDoses 1860000 ''demo_patient'' demo_store)) = []
   \<and> audit_rows (settle_all sched clock
                   (snd (detectMissedDoses 1860000 ''demo_patient'' (setMode mode config demo_store)))) = []"
proof -
  let ?st' = "snd (detectMissedDoses 1860000 ''demo_patient'' demo_store)"
  let ?new = "new_notifications demo_store ?st'"
  note f = demo_patient
  have one: "length (new_misses 1860000 ''demo_patient'' demo_store) = 1"
    by (simp add: demo_misses demo_doses)
  have cg: "getAssignedCaregiver ''demo_patient'' demo_store
       = Some \<lparr>u_id = ''demo_caregiver'', u_name = ''Emma Williams'', u_email = ''caregiver@demo.com'',
               u_phone = None\<rparr>"
    by (rule demo_caregiver_user)
  have r: "fst (detectMissedDoses 1860000 ''demo_patient'' demo_store) = 1"
    unfolding detect_count[OF f] by (rule one)
  have c1: "count_type MISSED_DOSE ?new = 1"
    unfolding count_type_sig detect_new(2)[OF f] count_cycles by (simp add: one)
  have c2: "count_type SMS_SENT ?new = 2"
    unfolding count_type_sig detect_new(2)[OF f] count_cycles by (simp add: one demo_contacts)
  have c3: "count_type CAREGIVER_ALERT ?new = 1"
    unfolding count_type_sig detect_new(2)[OF f] count_cycles by (simp add: one cg)
  have empty: "gateway_calls demo_store = []" by (simp add: demo_store_def)
  have g: "gateway_calls ?st' = [''+1-555-0101'', ''+1-555-0102'', ''caregiver@demo.com'']"
    unfolding detect_calls[OF f] one demo_recipients empty by simp
  have o: "stored_logs (undefined_key demo_store) = None" by (simp add: demo_slot)
  have k: "undefined_key ?st' = JsonObject [(''demo_patient'', ''demo_caregiver'')]"
    unfolding detect_object(1)[OF o] by (rule demo_slot)
  have a: "audit_rows ?st' = []" by (simp add: audit_rows_def k)
  have "getAssignedCaregiver ''demo_patient'' (setMode mode config demo_store)
          = getAssignedCaregiver ''demo_patient'' demo_store"
    by (simp add: getAssignedCaregiver_def setMode_def Let_def)
  with cg have "getAssignedCaregiver ''demo_patient'' (setMode mode config demo_store) \<noteq> None" by simp
  then have s: "audit_rows (settle_all sched clock
                   (snd (detectMissedDoses 1860000 ''demo_patient'' (setMode mode config demo_store)))) = []"
    by (rule fan_out_no_rows(2))
  show ?thesis
    by (intro conjI) (rule demo_assigned demo_contacts cg one r c1 c2 c3 g k a s)+
qed

section \<open>The threshold (C2)\<close>

lemma in_new_misses:
  "d \<in> set (new_misses now p st) \<longleftrightarrow>
     d \<in> set (DOSES st) \<and> d_patientId d = p \<and> d_takenAt d = None
     \<and> fires now (MEDICATIONS st) (notified_ids (NOTIFICATIONS st)) d"
  by (auto simp: new_misses_def)

lemma alerted_detect:
  assumes "find (\<lambda>u. u_id u = p) (USERS st) \<noteq> None"
  shows "alerted i (new_notifications st (snd (detectMissedDoses now p st)))
           \<longleftrightarrow> (\<exists>d\<in>set (new_misses now p st). d_id d = i)"
  unfolding alerted_sig detect_new(2)[OF assms] by (rule alerted_cycles)

lemma alerted_detect_legacy:
  "alerted i (new_notifications st (snd (detectMissedDoses_legacy now p st)))
           \<longleftrightarrow> (\<exists>d\<in>set (new_misses now p st). d_id d = i)"
  unfolding alerted_sig detect_legacy_new(2) by (rule alerted_cycles)

lemma unique_dose_misses:
  assumes "d \<in> set (DOSES st)" "d_patientId d = p" "d_takenAt d = None" "d_scheduledTime d = Some due"
    and "d_id d \<notin> set (notified_ids (NOTIFICATIONS st))"
    and "find (\<lambda>m. m_id m = d_medId d) (MEDICATIONS st) \<noteq> None"
    and "\<forall>d'\<in>set (DOSES st). d_id d' = d_id d \<longrightarrow> d' = d"
  shows "(\<exists>d'\<in>set (new_misses now p st). d_id d' = d_id d) \<longleftrightarrow> thresholdMs \<le> now - due"
proof
  assume "\<exists>d'\<in>set (new_misses now p st). d_id d' = d_id d"
  then obtain d' where d': "d' \<in> set (new_misses now p st)" "d_id d' = d_id d" by blast
  then have "d' \<in> set (DOSES st)" by (simp add: in_new_misses)
  with d'(2) assms(7) have "d' = d" by blast
  with d'(1) have "fires now (MEDICATIONS st) (notified_ids (NOTIFICATIONS st)) d"
    by (simp add: in_new_misses)
  with assms(4) show "thresholdMs \<le> now - due" by (simp add: fires_def)
next
  assume "thresholdMs \<le> now - due"
  with assms(4,5,6) have "fires now (MEDICATIONS st) (notified_ids (NOTIFICATIONS st)) d"
    by (simp add: fires_def)
  with assms(1,2,3) have "d \<in> set (new_misses now p st)" by (simp add: in_new_misses)
  then show "\<exists>d'\<in>set (new_misses now p st). d_id d' = d_id d" by blast
qed

lemma detect_legacy_idle:
  assumes "new_misses now p st = []"
  shows "new_notifications st (snd (detectMissedDoses_legacy now p st)) = []"
    and "fst (detectMissedDoses_legacy now p st) = 0"
proof -
  have "map sig (new_notifications st (snd (detectMissedDoses_legacy now p st))) = []"
    unfolding detect_legacy_new(2) by (simp add: assms)
  then show "new_notifications st (snd (detectMissedDoses_legacy now p st)) = []" by simp
  then show "fst (detectMissedDoses_legacy now p st) = 0" by (simp add: detect_legacy_new(3))
qed

text \<open>
  C2, as the claim states it, fails: being overdue by the threshold is not enough for an
  untaken, scheduled, not yet notified dose to fire. The scan skips a dose whose
  medication record is gone (\<open>if (!med) return\<close>), and removing a medication leaves its
  doses in the store. With the demo medication removed, the demo dose is 31 minutes
  overdue and neither variant alerts.
\<close>

theorem orphan_dose_no_alert:
  "DOSES (demo_store\<lparr>MEDICATIONS := []\<rparr>) = [demo_dose]
   \<and> d_id demo_dose = ''dose_1'' \<and> d_patientId demo_dose = ''demo_patient''
   \<and> d_takenAt demo_dose = None \<and> d_scheduledTime demo_dose = Some 0
   \<and> notified_ids (NOTIFICATIONS (demo_store\<lparr>MEDICATIONS := []\<rparr>)) = []
   \<and> thresholdMs \<le> 1860000 - 0
   \<and> \<not> alerted ''dose_1''
         (new_notifications (demo_store\<lparr>MEDICATIONS := []\<rparr>)
            (snd (detectMissedDoses 1860000 ''demo_patient'' (demo_store\<lparr>MEDICATIONS := []\<rparr>))))
   \<and> \<not> alerted ''dose_1''
         (new_notifications (demo_store\<lparr>MEDICATIONS := []\<rparr>)
            (snd (detectMissedDoses_legacy 1860000 ''demo_patient'' (demo_store\<lparr>MEDICATIONS := []\<rparr>))))"
proof -
  let ?st = "demo_store\<lparr>MEDICATIONS := []\<rparr>"
  have m: "new_misses 1860000 ''demo_patient'' ?st = []"
    by (simp add: new_misses_no_medication)
  have a: "\<not> alerted ''dose_1'' (new_notifications ?st (snd (detectMissedDoses 1860000 ''demo_patient'' ?st)))"
    by (simp add: detect_idle[OF m] new_notifications_def alerted_def)
  have b: "\<not> alerted ''dose_1'' (new_notifications ?st (snd (detectMissedDoses_legacy 1860000 ''demo_patient'' ?st)))"
    by (simp add: detect_legacy_idle(1)[OF m] alerted_def)
  have c: "thresholdMs \<le> 1860000 - 0" by (simp add: thresholdMs_def MISSED_THRESHOLD_MINS_def)
  from a b c show ?thesis by (simp add: demo_doses_list demo_dose_fields demo_empty)
qed

text \<open>
  C2 amended. Take a dose of the patient with \<open>takenAt\<close> null and a scheduled time, that
  has not been notified yet, whose medication is on record, and whose id no other dose
  carries. The earlier variant alerts for it iff \<open>now - scheduledTime\<close> is at least the
  threshold of 30 minutes (1800000 ms); the v3 scan does so whenever the patient record
  exists. So a dose overdue by the threshold less 1 ms produces no alert, and one
  overdue by exactly the threshold produces one.
\<close>

theorem threshold_boundary:
  assumes "d \<in> set (DOSES st)" and "d_patientId d = p" and "d_takenAt d = None"
    and "d_scheduledTime d = Some due"
    and "d_id d \<notin> set (notified_ids (NOTIFICATIONS st))"
    and "find (\<lambda>m. m_id m = d_medId d) (MEDICATIONS st) \<noteq> None"
    and "\<forall>d'\<in>set (DOSES st). d_id d' = d_id d \<longrightarrow> d' = d"
  shows "(find (\<lambda>u. u_id u = p) (USERS st) \<noteq> None \<longrightarrow>
           (alerted (d_id d) (new_notifications st (snd (detectMissedDoses now p st)))
              \<longleftrightarrow> thresholdMs \<le> now - due))
         \<and> (alerted (d_id d) (new_notifications st (snd (detectMissedDoses_legacy now p st)))
              \<longleftrightarrow> thresholdMs \<le> now - due)
         \<and> thresholdMs = 1800000"
proof (intro conjI impI)
  assume f: "find (\<lambda>u. u_id u = p) (USERS st) \<noteq> None"
  show "alerted (d_id d) (new_notifications st (snd (detectMissedDoses now p st)))
              \<longleftrightarrow> thresholdMs \<le> now - due"
    unfolding alerted_detect[OF f] by (rule unique_dose_misses[OF assms])
next
  show "alerted (d_id d) (new_notifications st (snd (detectMissedDoses_legacy now p st)))
              \<longleftrightarrow> thresholdMs \<le> now - due"
    unfolding alerted_detect_legacy by (rule unique_dose_misses[OF assms])
next
  show "thresholdMs = 1800000" by (simp add: thresholdMs_def MISSED_THRESHOLD_MINS_def)
qed

theorem threshold_boundary_witness:
  "\<not> alerted ''dose_1''
       (new_notifications demo_store (snd (detectMissedDoses 1799999 ''demo_patient'' demo_store)))
   \<and> alerted ''dose_1''
       (new_notifications demo_store (snd (detectMissedDoses 1800000 ''demo_patient'' demo_store)))
   \<and> \<not> alerted ''dose_1''
       (new_notifications demo_store (snd (detectMissedDoses_legacy 1799999 ''demo_patient'' demo_store)))
   \<and> alerted ''dose_1''
       (new_notifications demo_store (snd (detectMissedDoses_legacy 1800000 ''demo_patient'' demo_store)))"
proof -
  have h: "demo_dose \<in> set (DOSES demo_store)" "d_patientId demo_dose = ''demo_patient''"
     "d_takenAt demo_dose = None" "d_scheduledTime demo_dose = Some 0"
     "d_id demo_dose \<notin> set (notified_ids (NOTIFICATIONS demo_store))"
     "find (\<lambda>m. m_id m = d_medId demo_dose) (MEDICATIONS demo_store) \<noteq> None"
     "\<forall>d'\<in>set (DOSES demo_store). d_id d' = d_id demo_dose \<longrightarrow> d' = demo_dose"
    by (simp_all add: demo_doses_list demo_dose_fields demo_empty) (simp add: demo_store_def)
  have t: "thresholdMs = 1800000" by (simp add: thresholdMs_def MISSED_THRESHOLD_MINS_def)
  from threshold_boundary[OF h, of 1799999] threshold_boundary[OF h, of 1800000] demo_patient
  show ?thesis unfolding t by (simp add: demo_dose_fields)
qed

section \<open>At most one alert cycle per dose (C1)\<close>

lemma fires_append:
  "fires now meds (a @ b) d \<longleftrightarrow> fires now meds a d \<and> d_id d \<notin> set b"
  by (auto simp: fires_def split: option.splits)


text \<open>The doses a scan alerted are in the dedup set of the next scan.\<close>

lemma alerted_are_notified:
  assumes n: "NOTIFICATIONS st1 = NOTIFICATIONS st @ added"
    and sg: "map sig added = concat (map (cycle_sigs p cs cg) (new_misses now p st))"
    and d: "d \<in> set (new_misses now p st)" and i: "d_id d \<noteq> []"
  shows "d_id d \<in> set (notified_ids (NOTIFICATIONS st1))"
proof -
  from d have "\<exists>s\<in>set (concat (map (cycle_sigs p cs cg) (new_misses now p st))). fst (snd s) = Some (d_id d)"
    unfolding cycle_ids by blast
  then have "\<exists>s\<in>set (map sig added). fst (snd s) = Some (d_id d)" by (simp only: sg)
  with i have "d_id d \<in> set (notified_ids added)" by (simp only: notified_ids_set) simp
  then show ?thesis by (simp add: n notified_ids_append)
qed

lemma misses_after:
  assumes ids: "\<forall>d\<in>set (DOSES st). d_id d \<noteq> []"
    and n: "NOTIFICATIONS st1 = NOTIFICATIONS st @ added"
    and sg: "map sig added = concat (map (cycle_sigs p cs cg) (new_misses now p st))"
    and same: "DOSES st2 = DOSES st" "MEDICATIONS st2 = MEDICATIONS st" "NOTIFICATIONS st2 = NOTIFICATIONS st1"
  shows "new_misses now p st2 = []"
proof -
  have "\<not> (d_patientId d = p \<and> d_takenAt d = None
            \<and> fires now (MEDICATIONS st2) (notified_ids (NOTIFICATIONS st2)) d)"
    if d: "d \<in> set (DOSES st2)" for d
  proof
    assume a: "d_patientId d = p \<and> d_takenAt d = None
            \<and> fires now (MEDICATIONS st2) (notified_ids (NOTIFICATIONS st2)) d"
    then have f: "fires now (MEDICATIONS st) (notified_ids (NOTIFICATIONS st)) d"
      and out: "d_id d \<notin> set (notified_ids added)"
      by (simp_all add: same n notified_ids_append fires_append)
    from d a f have m: "d \<in> set (new_misses now p st)" by (simp add: in_new_misses same)
    from d ids have "d_id d \<noteq> []" by (simp add: same)
    from alerted_are_notified[OF n sg m this] a show False
      by (simp add: same fires_def split: option.splits)
  qed
  then show ?thesis by (simp add: new_misses_def filter_empty_conv)
qed

lemma scan_fold_legacy_idle:
  "\<forall>d\<in>set ds. \<not> fires now meds already d \<Longrightarrow>
   foldl (scan_dose_legacy now p pat meds already) acc ds = acc"
  by (induction ds arbitrary: acc) (simp_all add: scan_dose_legacy_skip)

lemma detect_legacy_idle_store:
  assumes "new_misses now p st = []"
  shows "detectMissedDoses_legacy now p st = (0, st)"
proof -
  from assms have "\<forall>d\<in>set (allDoses p st).
      \<not> fires now (MEDICATIONS st) (notified_ids (NOTIFICATIONS st)) d"
    unfolding misses_scanned[symmetric] by (simp add: filter_empty_conv)
  then have "foldl (scan_dose_legacy now p (find (\<lambda>u. u_id u = p) (USERS st)) (MEDICATIONS st)
              (notified_ids (NOTIFICATIONS st))) ([], st) (allDoses p st) = ([], st)"
    by (rule scan_fold_legacy_idle)
  then show ?thesis by (simp add: detectMissedDoses_legacy_def allDoses_def Let_def)
qed

lemma second_scan_idle:
  assumes ids: "\<forall>d\<in>set (DOSES st). d_id d \<noteq> []"
    and same: "DOSES st2 = DOSES (snd (detectMissedDoses now p st))"
      "MEDICATIONS st2 = MEDICATIONS (snd (detectMissedDoses now p st))"
      "USERS st2 = USERS (snd (detectMissedDoses now p st))"
      "NOTIFICATIONS st2 = NOTIFICATIONS (snd (detectMissedDoses now p st))"
  shows "detectMissedDoses now p st2 = (0, st2)"
proof (cases "find (\<lambda>u. u_id u = p) (USERS st)")
  case None
  with same(3) have "find (\<lambda>u. u_id u = p) (USERS st2) = None" by (simp add: detect_fields)
  then show ?thesis by (rule detect_missing)
next
  case (Some pat)
  then have f: "find (\<lambda>u. u_id u = p) (USERS st) \<noteq> None" by simp
  have "new_misses now p st2 = []"
    using misses_after[OF ids detect_new(1)[OF f] detect_new(2)[OF f], of st2] same
    by (simp add: detect_fields)
  then show ?thesis by (rule detect_idle)
qed

lemma second_scan_idle_legacy:
  assumes ids: "\<forall>d\<in>set (DOSES st). d_id d \<noteq> []"
    and same: "DOSES st2 = DOSES (snd (detectMissedDoses_legacy now p st))"
      "MEDICATIONS st2 = MEDICATIONS (snd (detectMissedDoses_legacy now p st))"
      "NOTIFICATIONS st2 = NOTIFICATIONS (snd (detectMissedDoses_legacy now p st))"
  shows "detectMissedDoses_legacy now p st2 = (0, st2)"
proof -
  obtain added where e: "NOTIFICATIONS (snd (detectMissedDoses_legacy now p st)) = NOTIFICATIONS st @ added"
     "map sig added
          = concat (map (cycle_sigs p (contacts_of p st) (None :: unit option)) (new_misses now p st))"
     "DOSES (snd (detectMissedDoses_legacy now p st)) = DOSES st"
     "MEDICATIONS (snd (detectMissedDoses_legacy now p st)) = MEDICATIONS st"
    using detect_legacy_effect[of now p st] by blast
  have "new_misses now p st2 = []"
    using misses_after[OF ids e(1) e(2), of st2] same by (simp add: e(3) e(4))
  then show ?thesis by (rule detect_legacy_idle_store)
qed

text \<open>
  C1. Let every dose carry a non-empty id, as every id drawn by \<open>uuid\<close> is. After a
  scan of patient p, a second scan at the same clock reading on a store with the doses,
  medications, users and notifications the first scan left returns 0 and changes
  nothing; in particular the second of two scans in immediate succession. The reason is
  the one the claim gives: every dose the first scan alerted has a persisted
  notification carrying its id, so it is in the dedup set that the second scan
  recomputes from the notification store. This holds for the v3 scan and for the
  earlier variant.
\<close>

theorem detect_idempotent:
  assumes "\<forall>d\<in>set (DOSES st). d_id d \<noteq> []"
  shows "(\<forall>st2. DOSES st2 = DOSES (snd (detectMissedDoses now p st))
             \<and> MEDICATIONS st2 = MEDICATIONS (snd (detectMissedDoses now p st))
             \<and> USERS st2 = USERS (snd (detectMissedDoses now p st))
             \<and> NOTIFICATIONS st2 = NOTIFICATIONS (snd (detectMissedDoses now p st))
             \<longrightarrow> detectMissedDoses now p st2 = (0, st2))
       \<and> detectMissedDoses now p (snd (detectMissedDoses now p st))
           = (0, snd (detectMissedDoses now p st))
       \<and> (find (\<lambda>u. u_id u = p) (USERS st) \<noteq> None \<longrightarrow>
            (\<forall>d\<in>set (new_misses now p st).
               d_id d \<in> set (notified_ids (NOTIFICATIONS (snd (detectMissedDoses now p st))))))
       \<and> (\<forall>st2. DOSES st2 = DOSES (snd (detectMissedDoses_legacy now p st))
             \<and> MEDICATIONS st2 = MEDICATIONS (snd (detectMissedDoses_legacy now p st))
             \<and> NOTIFICATIONS st2 = NOTIFICATIONS (snd (detectMissedDoses_legacy now p st))
             \<longrightarrow> detectMissedDoses_legacy now p st2 = (0, st2))
       \<and> detectMissedDoses_legacy now p (snd (detectMissedDoses_legacy now p st))
           = (0, snd (detectMissedDoses_legacy now p st))"
proof (intro conjI allI impI ballI)
  fix st2 :: store
  assume "DOSES st2 = DOSES (snd (detectMissedDoses now p st))
             \<and> MEDICATIONS st2 = MEDICATIONS (snd (detectMissedDoses now p st))
             \<and> USERS st2 = USERS (snd (detectMissedDoses now p st))
             \<and> NOTIFICATIONS st2 = NOTIFICATIONS (snd (detectMissedDoses now p st))"
  then show "detectMissedDoses now p st2 = (0, st2)"
    using second_scan_idle[OF assms] by blast
next
  show "detectMissedDoses now p (snd (detectMissedDoses now p st)) = (0, snd (detectMissedDoses now p st))"
    by (rule second_scan_idle[OF assms]) simp_all
next
  fix d
  assume f: "find (\<lambda>u. u_id u = p) (USERS st) \<noteq> None" and d: "d \<in> set (new_misses now p st)"
  from d have "d \<in> set (DOSES st)" by (simp add: in_new_misses)
  with assms have "d_id d \<noteq> []" by blast
  from alerted_are_notified[OF detect_new(1)[OF f] detect_new(2)[OF f] d this]
  show "d_id d \<in> set (notified_ids (NOTIFICATIONS (snd (detectMissedDoses now p st))))" .
next
  fix st2 :: store
  assume "DOSES st2 = DOSES (snd (detectMissedDoses_legacy now p st))
             \<and> MEDICATIONS st2 = MEDICATIONS (snd (detectMissedDoses_legacy now p st))
             \<and> NOTIFICATIONS st2 = NOTIFICATIONS (snd (detectMissedDoses_legacy now p st))"
  then show "detectMissedDoses_legacy now p st2 = (0, st2)"
    using second_scan_idle_legacy[OF assms] by blast
next
  show "detectMissedDoses_legacy now p (snd (detectMissedDoses_legacy now p st))
           = (0, snd (detectMissedDoses_legacy now p st))"
    by (rule second_scan_idle_legacy[OF assms]) simp_all
qed

theorem detect_idempotent_witness:
  "fst (detectMissedDoses 1860000 ''demo_patient'' demo_store) = 1
   \<and> detectMissedDoses 1860000 ''demo_patient'' (snd (detectMissedDoses 1860000 ''demo_patient'' demo_store))
       = (0, snd (detectMissedDoses 1860000 ''demo_patient'' demo_store))
   \<and> ''dose_1'' \<in> set (notified_ids (NOTIFICATIONS (snd (detectMissedDoses 1860000 ''demo_patient'' demo_store))))
   \<and> fst (detectMissedDoses_legacy 1860000 ''demo_patient'' demo_store) = 3
   \<and> detectMissedDoses_legacy 1860000 ''demo_patient''
         (snd (detectMissedDoses_legacy 1860000 ''demo_patient'' demo_store))
       = (0, snd (detectMissedDoses_legacy 1860000 ''demo_patient'' demo_store))"
proof -
  have ids: "\<forall>d\<in>set (DOSES demo_store). d_id d \<noteq> []"
    by (simp add: demo_doses_list demo_dose_fields)
  have one: "fst (detectMissedDoses 1860000 ''demo_patient'' demo_store) = 1"
    by (simp add: detect_count[OF demo_patient] demo_misses demo_doses)
  have three: "fst (detectMissedDoses_legacy 1860000 ''demo_patient'' demo_store) = 3"
    by (simp add: detect_legacy_count demo_misses demo_doses demo_contacts)
  note T = detect_idempotent[OF ids, of 1860000 "''demo_patient''"]
  note second = T[THEN conjunct2, THEN conjunct1]
  note because = T[THEN conjunct2, THEN conjunct2, THEN conjunct1, rule_format, OF demo_patient]
  note second_legacy = T[THEN conjunct2, THEN conjunct2, THEN conjunct2, THEN conjunct2]
  have "demo_dose \<in> set (new_misses 1860000 ''demo_patient'' demo_store)"
    by (simp add: demo_misses demo_doses_list)
  from because[OF this]
  have b: "''dose_1'' \<in> set (notified_ids (NOTIFICATIONS (snd (detectMissedDoses 1860000 ''demo_patient'' demo_store))))"
    by (simp only: demo_dose_fields)
  from one second b three second_legacy show ?thesis by (intro conjI)
qed

section \<open>Clearing the feed (C10)\<close>

lemma clear_fields [simp]:
  "USERS (clearAllNotifications p st) = USERS st"
  "MEDICATIONS (clearAllNotifications p st) = MEDICATIONS st"
  "DOSES (clearAllNotifications p st) = DOSES st"
  "EMERGENCY_CONTACTS (clearAllNotifications p st) = EMERGENCY_CONTACTS st"
  "undefined_key (clearAllNotifications p st) = undefined_key st"
  "sms_mode (clearAllNotifications p st) = sms_mode st"
  "sms_config (clearAllNotifications p st) = sms_config st"
  "in_flight (clearAllNotifications p st) = in_flight st"
  "gateway_calls (clearAllNotifications p st) = gateway_calls st"
  "NOTIFICATIONS (clearAllNotifications p st) = filter (\<lambda>n. n_patientId n \<noteq> p) (NOTIFICATIONS st)"
  by (simp_all add: clearAllNotifications_def)





section \<open>Acknowledging audit entries (C8)\<close>

text \<open>What holds: the bulk acknowledgement only touches \<open>acknowledgedAt\<close> of the
  patient's unacknowledged entries, and repeating it at any later instant changes nothing.\<close>

lemma acknowledgeAllLogs_frame:
  assumes "stored_logs (undefined_key st) = Some logs"
  shows "\<exists>st'. acknowledgeAllLogs now p st = Inr st'
      \<and> length (audit_rows st') = length logs
      \<and> (\<forall>i<length logs. audit_rows st' ! i
            = (if l_patientId (logs ! i) = p \<and> l_acknowledgedAt (logs ! i) = None
               then (logs ! i)\<lparr>l_acknowledgedAt := Some now\<rparr> else logs ! i))"
  using assms by (simp add: acknowledgeAllLogs_def audit_rows_def)

lemma acknowledgeAllLogs_twice:
  assumes "acknowledgeAllLogs now p st = Inr st'"
  shows "acknowledgeAllLogs now2 p st' = Inr st'"
proof -
  have m: "map (\<lambda>l. if l_patientId l = p \<and> l_acknowledgedAt l = None
                   then l\<lparr>l_acknowledgedAt := Some now2\<rparr> else l)
          (map (\<lambda>l. if l_patientId l = p \<and> l_acknowledgedAt l = None
                   then l\<lparr>l_acknowledgedAt := Some now\<rparr> else l) logs)
        = map (\<lambda>l. if l_patientId l = p \<and> l_acknowledgedAt l = None
                   then l\<lparr>l_acknowledgedAt := Some now\<rparr> else l) logs" for logs
    by (induction logs) simp_all
  from assms obtain logs where l: "stored_logs (undefined_key st) = Some logs"
    by (cases "stored_logs (undefined_key st)") (simp_all add: acknowledgeAllLogs_def)
  with assms have s: "st' = st\<lparr>undefined_key :=
                     JsonArray (map (\<lambda>l. if l_patientId l = p \<and> l_acknowledgedAt l = None
                                          then l\<lparr>l_acknowledgedAt := Some now\<rparr> else l) logs)\<rparr>"
    by (simp add: acknowledgeAllLogs_def)
  show ?thesis unfolding s by (simp add: acknowledgeAllLogs_def m)
qed

text \<open>The single acknowledgement touches one entry, and of it only \<open>acknowledgedAt\<close>.\<close>

lemma acknowledgeLog_frame:
  assumes "stored_logs (undefined_key st) = Some logs"
  shows "\<exists>st'. acknowledgeLog now i p st = Inr st'
      \<and> length (audit_rows st') = length logs
      \<and> (\<forall>k<length logs. audit_rows st' ! k
            = (if findIndex (\<lambda>l. l_id l = i) logs = Some k
               then (logs ! k)\<lparr>l_acknowledgedAt := Some now\<rparr> else logs ! k))"
  using assms
  by (auto simp: acknowledgeLog_def audit_rows_def Let_def nth_list_update split: option.splits)

text \<open>
  C8. The claim is what the audit trail promises (an entry is acknowledged once, for its
  patient, and acknowledging again changes nothing), and \<open>acknowledgeAllLogs\<close> keeps
  it. \<open>acknowledgeLog\<close> does not: it has neither the test for an entry that is still
  unacknowledged nor the test for the patient, so it overwrites the instant of an
  acknowledged entry, also when called for another patient. The entry \<open>demo_log\<close> was
  acknowledged at instant 1000; after \<open>acknowledgeLog\<close> at instant 2000 it reads 2000,
  whichever patient is named, while \<open>acknowledgeAllLogs\<close> at instant 2000 leaves 1000.
  The store is the demo store with the audit trail \<open>[demo_log]\<close> under the shared
  key, and every call returns normally (\<open>Inr\<close>).
\<close>

theorem acknowledgeLog_overwrites:
  "map l_acknowledgedAt (audit_rows (demo_store\<lparr>undefined_key := JsonArray [demo_log]\<rparr>)) = [Some 1000]
   \<and> map_sum id (\<lambda>st'. map l_acknowledgedAt (audit_rows st'))
        (acknowledgeLog 2000 ''log_1'' ''demo_patient'' (demo_store\<lparr>undefined_key := JsonArray [demo_log]\<rparr>))
       = Inr [Some 2000]
   \<and> map_sum id (\<lambda>st'. map l_acknowledgedAt (audit_rows st'))
        (acknowledgeLog 2000 ''log_1'' ''another_patient'' (demo_store\<lparr>undefined_key := JsonArray [demo_log]\<rparr>))
       = Inr [Some 2000]
   \<and> map_sum id (\<lambda>st'. map l_acknowledgedAt (audit_rows st'))
        (acknowledgeAllLogs 2000 ''demo_patient'' (demo_store\<lparr>undefined_key := JsonArray [demo_log]\<rparr>))
       = Inr [Some 1000]"
proof -
  have i: "l_id demo_log = ''log_1''" by (simp add: demo_log_def)
  have a: "l_acknowledgedAt demo_log = Some 1000" by (simp add: demo_log_def)
  show ?thesis by (simp add: acknowledgeLog_def acknowledgeAllLogs_def audit_rows_def i a)
qed

end
